theory Spec2Isabelle
  imports Complex_Main "HOL-Library.AList" "HOL-Library.Monad_Syntax"
begin

section \<open>Numbers\<close>

text \<open>
  A JavaScript number is an IEEE 754 double: a finite value, one of the two infinities,
  or \<^verbatim>\<open>NaN\<close>. The finite doubles are the rationals \<open>m * 2 ^ (e - 52)\<close> with
  \<open>\<bar>m\<bar> < 2 ^ 53\<close> and \<open>- 1022 \<le> e \<le> 1023\<close>; a finite number is carried as its
  exact value. The sign of a zero is not kept: no modelled computation divides by a
  computed zero, and a zero of either sign is written \<^verbatim>\<open>0\<close>.

  \<open>fl x\<close> is the double that a real \<open>x\<close> rounds to: to the nearest multiple of the
  spacing at the binade of \<open>x\<close> (the spacing of the subnormals below \<open>2 ^ - 1022\<close>), a tie
  to the even multiple, and to an infinity when the rounded value reaches \<open>2 ^ 1024\<close>.
  \<open>exponent b x\<close> is the integer \<open>e\<close> with \<open>b ^ e \<le> \<bar>x\<bar> < b ^ (e + 1)\<close>, computed from
  the number of digits of an integer in base \<open>b\<close>.
\<close>

datatype number = Finite rat | Infinity bool | NaN

fun length_in :: "nat \<Rightarrow> nat \<Rightarrow> nat" where
  "length_in b n = (if n = 0 \<or> b < 2 then 0 else Suc (length_in b (n div b)))"

declare length_in.simps [simp del]

definition exponent :: "nat \<Rightarrow> rat \<Rightarrow> int" where
  "exponent b x =
     (if 1 \<le> \<bar>x\<bar> then int (length_in b (nat \<lfloor>\<bar>x\<bar>\<rfloor>)) - 1
      else - int (length_in b (nat (\<lceil>1 / \<bar>x\<bar>\<rceil> - 1))))"

definition round_even :: "rat \<Rightarrow> int" where
  "round_even x =
     (if x - of_int \<lfloor>x\<rfloor> < 1 / 2 then \<lfloor>x\<rfloor>
      else if 1 / 2 < x - of_int \<lfloor>x\<rfloor> then \<lfloor>x\<rfloor> + 1
      else if even \<lfloor>x\<rfloor> then \<lfloor>x\<rfloor> else \<lfloor>x\<rfloor> + 1)"

definition quantum :: "rat \<Rightarrow> rat" where
  "quantum x = 2 powi (max (exponent 2 x) (- 1022) - 52)"

definition nearest :: "rat \<Rightarrow> rat" where
  "nearest x = of_int (round_even (x / quantum x)) * quantum x"

definition fl :: "rat \<Rightarrow> number" where
  "fl x = (if 2 ^ 1024 \<le> \<bar>nearest x\<bar> then Infinity (0 < x) else Finite (nearest x))"

text \<open>
  The operators \<^verbatim>\<open>+\<close>, \<^verbatim>\<open>-\<close>, \<^verbatim>\<open>*\<close> and \<^verbatim>\<open>/\<close> round the exact result of two finite
  operands; \<open>Infinity True\<close> is \<^verbatim>\<open>Infinity\<close> and \<open>Infinity False\<close> is \<^verbatim>\<open>-Infinity\<close>.
\<close>

fun js_add :: "number \<Rightarrow> number \<Rightarrow> number" where
  "js_add (Finite a) (Finite b) = fl (a + b)"
| "js_add (Finite a) (Infinity q) = Infinity q"
| "js_add (Infinity p) (Finite b) = Infinity p"
| "js_add (Infinity p) (Infinity q) = (if p = q then Infinity p else NaN)"
| "js_add NaN y = NaN"
| "js_add x NaN = NaN"

fun js_neg :: "number \<Rightarrow> number" where
  "js_neg (Finite a) = Finite (- a)"
| "js_neg (Infinity p) = Infinity (\<not> p)"
| "js_neg NaN = NaN"

definition js_sub :: "number \<Rightarrow> number \<Rightarrow> number" where
  "js_sub x y = js_add x (js_neg y)"

fun js_mul :: "number \<Rightarrow> number \<Rightarrow> number" where
  "js_mul (Finite a) (Finite b) = fl (a * b)"
| "js_mul (Finite a) (Infinity q) = (if a = 0 then NaN else Infinity (q = (0 < a)))"
| "js_mul (Infinity p) (Finite b) = (if b = 0 then NaN else Infinity (p = (0 < b)))"
| "js_mul (Infinity p) (Infinity q) = Infinity (p = q)"
| "js_mul NaN y = NaN"
| "js_mul x NaN = NaN"

fun js_div :: "number \<Rightarrow> number \<Rightarrow> number" where
  "js_div (Finite a) (Finite b) =
     (if b = 0 then (if a = 0 then NaN else Infinity (0 < a)) else fl (a / b))"
| "js_div (Finite a) (Infinity q) = Finite 0"
| "js_div (Infinity p) (Finite b) = Infinity (p = (0 \<le> b))"
| "js_div (Infinity p) (Infinity q) = NaN"
| "js_div NaN y = NaN"
| "js_div x NaN = NaN"

text \<open>The comparisons \<^verbatim>\<open><=\<close> and \<^verbatim>\<open><\<close> (false when an operand is \<^verbatim>\<open>NaN\<close>),
  \<^verbatim>\<open>Math.round\<close> (a half goes towards plus infinity), \<^verbatim>\<open>Math.abs\<close>, and the numbers
  that \<^verbatim>\<open>!\<close> takes for false.\<close>

fun js_le :: "number \<Rightarrow> number \<Rightarrow> bool" where
  "js_le (Finite a) (Finite b) = (a \<le> b)"
| "js_le (Finite a) (Infinity q) = q"
| "js_le (Infinity p) (Finite b) = (\<not> p)"
| "js_le (Infinity p) (Infinity q) = (p \<le> q)"
| "js_le NaN y = False"
| "js_le x NaN = False"

fun js_less :: "number \<Rightarrow> number \<Rightarrow> bool" where
  "js_less (Finite a) (Finite b) = (a < b)"
| "js_less (Finite a) (Infinity q) = q"
| "js_less (Infinity p) (Finite b) = (\<not> p)"
| "js_less (Infinity p) (Infinity q) = (p < q)"
| "js_less NaN y = False"
| "js_less x NaN = False"

fun math_round :: "number \<Rightarrow> number" where
  "math_round (Finite x) = Finite (of_int \<lfloor>x + 1 / 2\<rfloor>)"
| "math_round v = v"

fun math_abs :: "number \<Rightarrow> number" where
  "math_abs (Finite x) = Finite \<bar>x\<bar>"
| "math_abs (Infinity p) = Infinity True"
| "math_abs NaN = NaN"


text \<open>
  A number in a request body is a JSON literal, given here by its value: \<^verbatim>\<open>express.json()\<close>
  reads it as \<open>fl\<close> of that value. \<^verbatim>\<open>parseFloat\<close> of the text of a numeric column, given
  by the value of the column, is the same rounding; \<^verbatim>\<open>parseFloat\<close> of a number is that
  number again (it parses the text \<^verbatim>\<open>String\<close> writes, which reads back as the same
  double) and is not written.
\<close>

definition parseFloat :: "rat \<Rightarrow> number" where
  "parseFloat x = fl x"

text \<open>
  node-postgres sends a number as the text \<^verbatim>\<open>String(x)\<close>. For a finite double that is
  the decimal \<open>s * 10 ^ (n - k)\<close> with the fewest digits \<open>k\<close> that reads back as \<open>x\<close>, the
  nearest to \<open>x\<close> when several do and the one with an even \<open>s\<close> on a tie
  (\<^verbatim>\<open>Number::toString\<close> of ECMAScript). \<open>shortest_decimal x\<close> is the value of that text.
  For \<open>k\<close> digits the only candidates are the two multiples of \<open>10 ^ (n - k)\<close> around \<open>x\<close>;
  seventeen digits identify every double, and the search falls back on \<open>x\<close> itself,
  whose own decimal expansion is finite.
\<close>

definition unit_at :: "nat \<Rightarrow> rat \<Rightarrow> rat" where
  "unit_at k x = 10 powi (exponent 10 x + 1 - int k)"

definition decimal_below :: "nat \<Rightarrow> rat \<Rightarrow> rat" where
  "decimal_below k x = of_int \<lfloor>x / unit_at k x\<rfloor> * unit_at k x"

definition decimal_above :: "nat \<Rightarrow> rat \<Rightarrow> rat" where
  "decimal_above k x = decimal_below k x + unit_at k x"

definition digits :: "nat \<Rightarrow> rat \<Rightarrow> rat option" where
  "digits k x =
     (if fl (decimal_below k x) = Finite x \<and> fl (decimal_above k x) = Finite x
      then (if x - decimal_below k x < decimal_above k x - x then Some (decimal_below k x)
            else if decimal_above k x - x < x - decimal_below k x then Some (decimal_above k x)
            else if even \<lfloor>x / unit_at k x\<rfloor> then Some (decimal_below k x)
            else Some (decimal_above k x))
      else if fl (decimal_below k x) = Finite x then Some (decimal_below k x)
      else if fl (decimal_above k x) = Finite x then Some (decimal_above k x)
      else None)"

fun shortest_from :: "nat \<Rightarrow> nat \<Rightarrow> rat \<Rightarrow> rat" where
  "shortest_from 0 k x = x"
| "shortest_from (Suc n) k x =
     (case digits k x of Some d \<Rightarrow> d | None \<Rightarrow> shortest_from n (Suc k) x)"

definition shortest_decimal :: "rat \<Rightarrow> rat" where
  "shortest_decimal x =
     (if x = 0 then 0
      else if x < 0 then - shortest_from 17 1 (- x)
      else shortest_from 17 1 x)"

text \<open>
  PostgreSQL reads the text of a parameter as an exact \<^verbatim>\<open>numeric\<close> and, for a
  \<^verbatim>\<open>DECIMAL(p,s)\<close> column, rounds it half away from zero to \<open>s\<close> decimals; it raises an
  error when the rounded value needs more than \<open>p\<close> digits, and for \<^verbatim>\<open>Infinity\<close>. \<open>None\<close>
  is the raised error. PostgreSQL's \<^verbatim>\<open>numeric\<close> has a \<^verbatim>\<open>NaN\<close> of its own, which a
  column would keep; the tables here hold finite values and a \<^verbatim>\<open>NaN\<close> parameter is taken
  as an error too. In the handlers below \<^verbatim>\<open>NaN\<close> comes only from an infinite operand
  (\<^verbatim>\<open>Infinity - Infinity\<close>, \<^verbatim>\<open>Infinity * 0\<close>), and that operand, or the quantity or
  rate it was computed from, is a parameter of the same statement or of a later
  statement of the same transaction, which raises on it.
\<close>

definition round_half_away :: "rat \<Rightarrow> int" where
  "round_half_away x = (if 0 \<le> x then \<lfloor>x + 1 / 2\<rfloor> else - \<lfloor>- x + 1 / 2\<rfloor>)"

definition to_decimal :: "nat \<Rightarrow> nat \<Rightarrow> number \<Rightarrow> rat option" where
  "to_decimal p s v =
     (case v of
        Finite x \<Rightarrow>
          (let n = round_half_away (shortest_decimal x * 10 ^ s)
           in if \<bar>n\<bar> < 10 ^ p then Some (of_int n / 10 ^ s) else None)
      | _ \<Rightarrow> None)"

text \<open>\<^verbatim>\<open>roundToTenth\<close> and \<^verbatim>\<open>isValidDuration\<close> of utils/helpers.js. The argument of
  \<^verbatim>\<open>isValidDuration\<close> is what \<^verbatim>\<open>parseFloat\<close> returned, so its \<^verbatim>\<open>typeof\<close> test holds.\<close>

definition roundToTenth :: "number \<Rightarrow> number" where
  "roundToTenth duration = js_div (math_round (js_mul duration (Finite 10))) (Finite 10)"

definition isValidDuration :: "number \<Rightarrow> bool" where
  "isValidDuration duration =
     (if js_le duration (Finite 0) then False
      else (let rounded = math_round (js_mul duration (Finite 10))
            in js_less (math_abs (js_sub (js_mul duration (Finite 10)) rounded)) (fl (1 / 1000))))"

section \<open>The store\<close>

text \<open>
  The tables of scripts/init-db.sql, each a list of rows in insertion order, with the
  columns the modelled handlers read or write. A nullable column is an \<open>option\<close>.
  The \<^verbatim>\<open>status\<close> column of invoices carries a \<^verbatim>\<open>CHECK\<close> constraint
  that admits exactly four strings; it is a datatype.
\<close>

datatype invoice_status = Draft | Sent | Paid | Overdue

record client_row =
  c_id :: nat
  c_name :: string
  c_hourly_rate :: "rat option"

record project_row =
  p_id :: nat
  p_client_id :: nat
  p_name :: string
  p_hourly_rate :: "rat option"

record time_entry =
  te_id :: nat
  te_client_id :: nat
  te_project_id :: "nat option"
  te_date :: string
  te_start_time :: "string option"
  te_duration :: rat
  te_title :: string
  te_description :: "string option"
  te_internal_notes :: "string option"
  te_billable :: bool
  te_invoiced :: bool
  te_invoice_id :: "nat option"

record invoice =
  inv_id :: nat
  inv_client_id :: nat
  invoice_number :: string
  date_issued :: string
  date_due :: "string option"
  subtotal :: rat
  tax_rate :: rat
  tax_amount :: rat
  total :: rat
  status :: invoice_status
  inv_notes :: "string option"

record invoice_item =
  it_id :: nat
  it_invoice_id :: nat
  it_description :: string
  it_quantity :: rat
  it_rate :: rat
  it_amount :: rat

record resource =
  r_id :: nat
  r_time_entry_id :: nat
  r_type :: string
  r_name :: string
  r_url :: string

text \<open>
  The \<^verbatim>\<open>SERIAL\<close> keys are drawn from one counter per table. The counters are fields
  of the store, so a transaction that is rolled back restores them with the rows
  (PostgreSQL would leave a sequence advanced; no row depends on it).
\<close>

record db =
  clients :: "client_row list"
  projects :: "project_row list"
  time_entries :: "time_entry list"
  invoices :: "invoice list"
  invoice_items :: "invoice_item list"
  resources :: "resource list"
  invoices_id_seq :: nat
  invoice_items_id_seq :: nat
  resources_id_seq :: nat

section \<open>Responses\<close>

text \<open>
  A handler answers with \<^verbatim>\<open>res.status(n).json(...)\<close>. A failure carries the status
  and the \<^verbatim>\<open>error\<close> string, and the extra member some of them add to it
  (\<^verbatim>\<open>invoiced_ids\<close>, \<^verbatim>\<open>invoiced\<close>, or the \<^verbatim>\<open>details\<close> of \<^verbatim>\<open>validateBody\<close>); a
  success carries the status (200 where the handler sets none) and the body.

  \<^verbatim>\<open>validateId\<close> of middleware/validation.js runs before the handlers that take an
  id from the path: an id below 1 is answered 400 (the id is a number here, so its
  \<^verbatim>\<open>isNaN\<close> test has no counterpart). The requests are those of a staff session, which
  \<^verbatim>\<open>requireUser\<close> lets through.
\<close>

datatype detail = NoDetail | InvoicedIds "nat list" | InvoicedFlag bool | Details "string list"

datatype 'a http = Fail nat string detail | Ok nat 'a

definition validateId :: "nat \<Rightarrow> bool" where
  "validateId i = (\<not> i < 1)"

definition invalid_id :: "'a http" where
  "invalid_id = Fail 400 ''Invalid id: must be a positive integer'' NoDetail"

section \<open>Calls into the broadcaster\<close>

text \<open>
  A handler that has written to the store ends by calling one of the functions of
  \<^verbatim>\<open>events\<close> (websocket/handler.js). The call does not touch the store; a handler
  returns the calls it made, in order, next to the store and the response, and the
  broadcaster further down says what each call sends to whom.

  A time entry travels as a JavaScript object, a list of keys and values in the
  object's key order; \<open>Undefined\<close> is a key that is present with the value
  \<^verbatim>\<open>undefined\<close>. \<open>Num\<close> is a finite JavaScript number, \<open>Numeric\<close> the value of a
  \<^verbatim>\<open>DECIMAL\<close> column (the driver hands it over as its decimal text). An invoice
  travels as its row.
\<close>

datatype js_val = Undefined | Null | Bool bool | Num rat | Numeric rat | Str string

type_synonym js_object = "(string \<times> js_val) list"

datatype event_call =
    TimeEntryCreated js_object nat
  | TimeEntryUpdated js_object nat
  | TimeEntryDeleted nat nat
  | InvoiceCreated invoice
  | InvoiceUpdated invoice

section \<open>Invoice state machine (routes/invoices.js)\<close>

definition find_invoice :: "db \<Rightarrow> nat \<Rightarrow> invoice option" where
  "find_invoice s i = find (\<lambda>r. inv_id r = i) (invoices s)"

definition update_invoice :: "db \<Rightarrow> nat \<Rightarrow> (invoice \<Rightarrow> invoice) \<Rightarrow> db" where
  "update_invoice s i f =
     s\<lparr>invoices := map (\<lambda>r. if inv_id r = i then f r else r) (invoices s)\<rparr>"

text \<open>\<^verbatim>\<open>POST /:id/send\<close>. The row returned by \<^verbatim>\<open>UPDATE ... RETURNING *\<close> is read
  back from the new store; reading \<^verbatim>\<open>rows[0]\<close> of an empty result throws, which the
  handler's \<^verbatim>\<open>catch\<close> turns into a 500.\<close>

definition post_send :: "db \<Rightarrow> nat \<Rightarrow> db \<times> invoice http \<times> event_call list" where
  "post_send s i =
     (case find_invoice s i of
        None \<Rightarrow> (s, Fail 404 ''Invoice not found'' NoDetail, [])
      | Some existing \<Rightarrow>
          if status existing \<noteq> Draft
          then (s, Fail 400 ''Invoice has already been sent'' NoDetail, [])
          else
            let s' = update_invoice s i (\<lambda>r. r\<lparr>status := Sent\<rparr>)
            in case find_invoice s' i of
                 None \<Rightarrow> (s', Fail 500 ''Failed to send invoice'' NoDetail, [])
               | Some row \<Rightarrow> (s', Ok 200 row, [InvoiceUpdated row]))"

text \<open>\<^verbatim>\<open>POST /:id/paid\<close>.\<close>

definition post_paid :: "db \<Rightarrow> nat \<Rightarrow> db \<times> invoice http \<times> event_call list" where
  "post_paid s i =
     (case find_invoice s i of
        None \<Rightarrow> (s, Fail 404 ''Invoice not found'' NoDetail, [])
      | Some existing \<Rightarrow>
          if status existing = Draft
          then (s, Fail 400 ''Invoice must be sent before marking as paid'' NoDetail, [])
          else if status existing = Paid
          then (s, Fail 400 ''Invoice is already paid'' NoDetail, [])
          else
            let s' = update_invoice s i (\<lambda>r. r\<lparr>status := Paid\<rparr>)
            in case find_invoice s' i of
                 None \<Rightarrow> (s', Fail 500 ''Failed to mark invoice as paid'' NoDetail, [])
               | Some row \<Rightarrow> (s', Ok 200 row, [InvoiceUpdated row]))"

text \<open>A run of the two operations on one invoice, and the position of a status on
  the path draft, sent (or overdue), paid.\<close>

datatype transition = Send | MarkPaid

fun apply_transition :: "db \<Rightarrow> nat \<Rightarrow> transition \<Rightarrow> db" where
  "apply_transition s i Send = fst (post_send s i)"
| "apply_transition s i MarkPaid = fst (post_paid s i)"

fun status_rank :: "invoice_status \<Rightarrow> nat" where
  "status_rank Draft = 0"
| "status_rank Sent = 1"
| "status_rank Overdue = 1"
| "status_rank Paid = 2"

definition status_of :: "db \<Rightarrow> nat \<Rightarrow> invoice_status option" where
  "status_of s i = map_option status (find_invoice s i)"

section \<open>Invoice numbers (routes/invoices.js, inside the creation transaction)\<close>

text \<open>
  The string operations the number generation uses. \<^verbatim>\<open>toString\<close> of a non-negative
  integer is its decimal numeral; \<^verbatim>\<open>parseInt(s, 10)\<close> reads the leading decimal digits
  and is \<^verbatim>\<open>NaN\<close> (here \<open>None\<close>) when there is none (leading white space and a sign are
  not modelled: the text parsed is what follows the hyphen of a stored number).
\<close>

definition digit_char :: "nat \<Rightarrow> char" where
  "digit_char d = ''0123456789'' ! (d mod 10)"

fun nat_to_string :: "nat \<Rightarrow> string" where
  "nat_to_string n =
     (if n < 10 then [digit_char n] else nat_to_string (n div 10) @ [digit_char (n mod 10)])"

declare nat_to_string.simps [simp del]

definition number_to_string :: "nat option \<Rightarrow> string" where
  "number_to_string n = (case n of None \<Rightarrow> ''NaN'' | Some k \<Rightarrow> nat_to_string k)"

definition padStart :: "nat \<Rightarrow> char \<Rightarrow> string \<Rightarrow> string" where
  "padStart n c str = replicate (n - length str) c @ str"

fun split_on :: "char \<Rightarrow> string \<Rightarrow> string list" where
  "split_on c [] = [[]]"
| "split_on c (x # xs) =
     (if x = c then [] # split_on c xs
      else (case split_on c xs of [] \<Rightarrow> [[x]] | w # ws \<Rightarrow> (x # w) # ws))"

definition is_digit :: "char \<Rightarrow> bool" where
  "is_digit c = (48 \<le> (of_char c :: nat) \<and> (of_char c :: nat) \<le> 57)"

definition parseInt :: "string option \<Rightarrow> nat option" where
  "parseInt str =
     (case str of
        None \<Rightarrow> None
      | Some cs \<Rightarrow>
          (let ds = takeWhile is_digit cs
           in if ds = [] then None
              else Some (foldl (\<lambda>acc c. 10 * acc + (of_char c - 48)) 0 ds)))"

text \<open>The element \<^verbatim>\<open>[1]\<close> of an array, \<^verbatim>\<open>undefined\<close> when the array is shorter.\<close>

definition second :: "'a list \<Rightarrow> 'a option" where
  "second xs = (case xs of _ # y # _ \<Rightarrow> Some y | _ \<Rightarrow> None)"

text \<open>\<^verbatim>\<open>ORDER BY invoice_number DESC\<close> compares strings; the comparison is modelled
  character by character on the character codes. \<^verbatim>\<open>LIKE 'YYYY-%'\<close> is a prefix test.\<close>

fun str_less :: "string \<Rightarrow> string \<Rightarrow> bool" where
  "str_less _ [] = False"
| "str_less [] (y # ys) = True"
| "str_less (x # xs) (y # ys) =
     ((of_char x :: nat) < of_char y \<or> (x = y \<and> str_less xs ys))"

definition starts_with :: "string \<Rightarrow> string \<Rightarrow> bool" where
  "starts_with pre str = (take (length pre) str = pre)"

definition greatest :: "string list \<Rightarrow> string option" where
  "greatest xs =
     fold (\<lambda>x best. case best of None \<Rightarrow> Some x
                     | Some b \<Rightarrow> if str_less b x then Some x else Some b) xs None"

definition last_invoice_number :: "nat \<Rightarrow> db \<Rightarrow> string option" where
  "last_invoice_number year s =
     greatest (filter (starts_with (nat_to_string year @ ''-'')) (map invoice_number (invoices s)))"

definition next_invoice_number :: "nat \<Rightarrow> db \<Rightarrow> string" where
  "next_invoice_number year s =
     (case last_invoice_number year s of
        Some lastInvoice \<Rightarrow>
          (let lastNum = parseInt (second (split_on CHR ''-'' lastInvoice))
           in nat_to_string year @ ''-'' @
              padStart 4 CHR ''0'' (number_to_string (map_option (\<lambda>n. n + 1) lastNum)))
      | None \<Rightarrow> nat_to_string year @ ''-0001'')"

section \<open>Invoice aggregation (routes/invoices.js, POST /)\<close>

text \<open>The body of the request; the quantity and the rate of an item and the tax rate
  are number literals.\<close>

record item_req =
  iq_description :: "string option"
  iq_quantity :: rat
  iq_rate :: rat

record invoice_req =
  rq_client_id :: nat
  rq_date_issued :: string
  rq_date_due :: "string option"
  rq_tax_rate :: "rat option"
  rq_notes :: "string option"
  rq_time_entry_ids :: "nat list"
  rq_items :: "item_req list"

text \<open>\<^verbatim>\<open>x || null\<close> on an optional string: the empty string is falsy.\<close>

definition or_null :: "string option \<Rightarrow> string option" where
  "or_null x = (if x = Some [] then None else x)"

text \<open>\<^verbatim>\<open>COALESCE(p.hourly_rate, c.hourly_rate, 0)\<close> over the two left joins.\<close>

definition effective_rate :: "db \<Rightarrow> time_entry \<Rightarrow> rat" where
  "effective_rate s te =
     (case Option.bind (Option.bind (te_project_id te) (\<lambda>pid. find (\<lambda>p. p_id p = pid) (projects s)))
             p_hourly_rate of
        Some r \<Rightarrow> r
      | None \<Rightarrow>
          (case Option.bind (find (\<lambda>c. c_id c = te_client_id te) (clients s)) c_hourly_rate of
             Some r \<Rightarrow> r
           | None \<Rightarrow> 0))"

text \<open>The two queries that run before the transaction, on the pool: the client must
  exist, and every selected entry must belong to it and be unbilled.\<close>

definition validate_invoice_request :: "db \<Rightarrow> invoice_req \<Rightarrow> invoice http option" where
  "validate_invoice_request s rq =
     (if find (\<lambda>c. c_id c = rq_client_id rq) (clients s) = None
      then Some (Fail 400 ''Client not found'' NoDetail)
      else if rq_time_entry_ids rq \<noteq> []
      then
        (let entriesCheck = filter (\<lambda>e. te_id e \<in> set (rq_time_entry_ids rq) \<and>
                                         te_client_id e = rq_client_id rq) (time_entries s)
         in if length entriesCheck \<noteq> length (rq_time_entry_ids rq)
            then Some (Fail 400 ''Some time entries not found or do not belong to this client''
                         NoDetail)
            else
              (let alreadyInvoiced = filter te_invoiced entriesCheck
               in if alreadyInvoiced \<noteq> []
                  then Some (Fail 400 ''Some time entries are already invoiced''
                               (InvoicedIds (map te_id alreadyInvoiced)))
                  else None))
      else None)"

text \<open>The two \<^verbatim>\<open>INSERT\<close> statements, with the constraints of the schema that can make
  them raise: the primary key, the foreign key and the unique number of an invoice, the
  lengths of the \<^verbatim>\<open>VARCHAR\<close> columns, \<^verbatim>\<open>NOT NULL\<close>, and the precision of each
  \<^verbatim>\<open>DECIMAL\<close> column. \<open>None\<close> is the raised error.\<close>

definition insert_invoice ::
  "db \<Rightarrow> nat \<Rightarrow> string \<Rightarrow> string \<Rightarrow> string option \<Rightarrow> number \<Rightarrow> number \<Rightarrow> number \<Rightarrow> number
     \<Rightarrow> string option \<Rightarrow> (db \<times> invoice) option" where
  "insert_invoice s client_id number issued due sub rate tax tot nts =
     (if invoices_id_seq s \<in> set (map inv_id (invoices s))
         \<or> find (\<lambda>c. c_id c = client_id) (clients s) = None
         \<or> number \<in> set (map invoice_number (invoices s)) \<or> 50 < length number
      then None
      else do {
        sub' \<leftarrow> to_decimal 10 2 sub;
        rate' \<leftarrow> to_decimal 5 2 rate;
        tax' \<leftarrow> to_decimal 10 2 tax;
        tot' \<leftarrow> to_decimal 10 2 tot;
        let row = \<lparr>inv_id = invoices_id_seq s, inv_client_id = client_id,
                    invoice_number = number, date_issued = issued, date_due = due,
                    subtotal = sub', tax_rate = rate', tax_amount = tax', total = tot',
                    status = Draft, inv_notes = nts\<rparr>;
        Some (s\<lparr>invoices := invoices s @ [row], invoices_id_seq := invoices_id_seq s + 1\<rparr>, row)
      })"

definition insert_invoice_item ::
  "db \<Rightarrow> nat \<Rightarrow> string option \<Rightarrow> number \<Rightarrow> number \<Rightarrow> number
     \<Rightarrow> (db \<times> invoice_item) option" where
  "insert_invoice_item s invoice_id description quantity rate amount =
     (case description of
        None \<Rightarrow> None
      | Some d \<Rightarrow>
          if invoice_items_id_seq s \<in> set (map it_id (invoice_items s))
             \<or> 255 < length d \<or> find_invoice s invoice_id = None
          then None
          else do {
            q \<leftarrow> to_decimal 10 2 quantity;
            r \<leftarrow> to_decimal 10 2 rate;
            a \<leftarrow> to_decimal 10 2 amount;
            let row = \<lparr>it_id = invoice_items_id_seq s, it_invoice_id = invoice_id,
                        it_description = d, it_quantity = q, it_rate = r, it_amount = a\<rparr>;
            Some (s\<lparr>invoice_items := invoice_items s @ [row],
                     invoice_items_id_seq := invoice_items_id_seq s + 1\<rparr>, row)
          })"

fun insert_items :: "db \<Rightarrow> nat \<Rightarrow> item_req list \<Rightarrow> db option" where
  "insert_items s invoice_id [] = Some s"
| "insert_items s invoice_id (item # items) =
     (case insert_invoice_item s invoice_id (iq_description item) (fl (iq_quantity item))
             (fl (iq_rate item)) (js_mul (fl (iq_quantity item)) (fl (iq_rate item))) of
        None \<Rightarrow> None
      | Some (s', _) \<Rightarrow> insert_items s' invoice_id items)"

text \<open>The callback of \<^verbatim>\<open>db.withTransaction\<close>. \<open>year\<close> is what
  \<^verbatim>\<open>new Date().getFullYear()\<close> returns. The sum over the selected entries is
  PostgreSQL's, exact, and selects by id alone; the handler reads its text with
  \<^verbatim>\<open>parseFloat\<close> and goes on in doubles: the manual items are added in order, the tax
  rate is divided by 100 and multiplied with the subtotal, and the total is their sum.
  \<open>None\<close> is a statement that raised: \<^verbatim>\<open>withTransaction\<close> then rolls back.\<close>

definition entries_sum :: "db \<Rightarrow> nat list \<Rightarrow> rat" where
  "entries_sum s ids =
     sum_list (map (\<lambda>te. te_duration te * effective_rate s te)
                 (filter (\<lambda>te. te_id te \<in> set ids) (time_entries s)))"

definition mark_invoiced :: "db \<Rightarrow> nat \<Rightarrow> nat list \<Rightarrow> db" where
  "mark_invoiced s invoice_id ids =
     s\<lparr>time_entries :=
         map (\<lambda>te. if te_id te \<in> set ids
                    then te\<lparr>te_invoiced := True, te_invoice_id := Some invoice_id\<rparr> else te)
           (time_entries s)\<rparr>"

definition invoice_transaction :: "nat \<Rightarrow> db \<Rightarrow> invoice_req \<Rightarrow> (db \<times> invoice) option" where
  "invoice_transaction year s rq =
     (let invoiceNumber = next_invoice_number year s;
          subtotal0 = (if rq_time_entry_ids rq \<noteq> []
                       then parseFloat (entries_sum s (rq_time_entry_ids rq)) else Finite 0);
          subtotal1 = fold (\<lambda>item acc. js_add acc (js_mul (fl (iq_quantity item)) (fl (iq_rate item))))
                        (rq_items rq) subtotal0;
          taxRateNum = (case rq_tax_rate rq of None \<Rightarrow> Finite 0 | Some r \<Rightarrow> fl r);
          taxAmount = js_mul subtotal1 (js_div taxRateNum (Finite 100));
          total1 = js_add subtotal1 taxAmount
      in case insert_invoice s (rq_client_id rq) invoiceNumber (rq_date_issued rq)
                (or_null (rq_date_due rq)) subtotal1 taxRateNum taxAmount total1
                (or_null (rq_notes rq)) of
           None \<Rightarrow> None
         | Some (s1, newInvoice) \<Rightarrow>
             (let s2 = (if rq_time_entry_ids rq \<noteq> []
                        then mark_invoiced s1 (inv_id newInvoice) (rq_time_entry_ids rq) else s1)
              in case insert_items s2 (inv_id newInvoice) (rq_items rq) of
                   None \<Rightarrow> None
                 | Some s3 \<Rightarrow> Some (s3, newInvoice)))"

text \<open>The second half of the handler: the transaction, and the response built from
  the row read back. A rolled back transaction leaves the store as it was and the
  handler's \<^verbatim>\<open>catch\<close> answers 500.\<close>

definition invoice_commit ::
  "nat \<Rightarrow> db \<Rightarrow> invoice_req \<Rightarrow> db \<times> invoice http \<times> event_call list" where
  "invoice_commit year s rq =
     (case invoice_transaction year s rq of
        None \<Rightarrow> (s, Fail 500 ''Failed to create invoice'' NoDetail, [])
      | Some (s', newInvoice) \<Rightarrow>
          (case find_invoice s' (inv_id newInvoice) of
             None \<Rightarrow> (s', Fail 500 ''Failed to create invoice'' NoDetail, [])
           | Some fullInvoice \<Rightarrow> (s', Ok 201 fullInvoice, [InvoiceCreated fullInvoice])))"

text \<open>\<^verbatim>\<open>POST /\<close> run from start to end with no other request in between.\<close>

definition post_invoice ::
  "nat \<Rightarrow> db \<Rightarrow> invoice_req \<Rightarrow> db \<times> invoice http \<times> event_call list" where
  "post_invoice year s rq =
     (case validate_invoice_request s rq of
        Some failure \<Rightarrow> (s, failure, [])
      | None \<Rightarrow> invoice_commit year s rq)"

section \<open>Manual line items (routes/invoices.js, POST /:id/items and DELETE /:id/items/:itemId)\<close>

text \<open>The body of \<^verbatim>\<open>POST /:id/items\<close>; \<open>None\<close> is a member that is missing, the
  quantity and the rate are number literals.\<close>

record item_body =
  ib_description :: "string option"
  ib_quantity :: "rat option"
  ib_rate :: "rat option"




section \<open>Time entry ledger (routes/time-entries.js)\<close>

text \<open>Spreading an object and then naming a key, \<^verbatim>\<open>{...obj, key: v}\<close>: the key keeps
  its place when the object has it and is added last when it has not.\<close>

definition set_key :: "js_object \<Rightarrow> string \<Rightarrow> js_val \<Rightarrow> js_object" where
  "set_key obj k v =
     (if k \<in> set (map fst obj)
      then map (\<lambda>(k', v'). if k' = k then (k', v) else (k', v')) obj
      else obj @ [(k, v)])"

definition nullable :: "('a \<Rightarrow> js_val) \<Rightarrow> 'a option \<Rightarrow> js_val" where
  "nullable f x = (case x of None \<Rightarrow> Null | Some y \<Rightarrow> f y)"

definition find_entry :: "db \<Rightarrow> nat \<Rightarrow> time_entry option" where
  "find_entry s i = find (\<lambda>e. te_id e = i) (time_entries s)"

text \<open>The row of the \<^verbatim>\<open>SELECT te.*, c.name, p.name, COALESCE(...), (SELECT COUNT(*) ...)\<close>
  that the handlers broadcast and answer with, as an object (the two timestamp
  columns are not modelled). A count comes back from the driver as text.\<close>

definition full_entry :: "db \<Rightarrow> time_entry \<Rightarrow> js_object" where
  "full_entry s te =
     [(''id'', Num (of_nat (te_id te))),
      (''client_id'', Num (of_nat (te_client_id te))),
      (''project_id'', nullable (\<lambda>p. Num (of_nat p)) (te_project_id te)),
      (''date'', Str (te_date te)),
      (''start_time'', nullable Str (te_start_time te)),
      (''duration'', Numeric (te_duration te)),
      (''title'', Str (te_title te)),
      (''description'', nullable Str (te_description te)),
      (''internal_notes'', nullable Str (te_internal_notes te)),
      (''billable'', Bool (te_billable te)),
      (''invoiced'', Bool (te_invoiced te)),
      (''invoice_id'', nullable (\<lambda>n. Num (of_nat n)) (te_invoice_id te)),
      (''client_name'',
         nullable Str (map_option c_name (find (\<lambda>c. c_id c = te_client_id te) (clients s)))),
      (''project_name'',
         nullable Str (map_option p_name
           (Option.bind (te_project_id te) (\<lambda>pid. find (\<lambda>p. p_id p = pid) (projects s))))),
      (''effective_rate'', Numeric (effective_rate s te)),
      (''resource_count'',
         Str (nat_to_string (length (filter (\<lambda>r. r_time_entry_id r = te_id te) (resources s)))))]"

text \<open>The body of \<^verbatim>\<open>PUT /:id\<close>. \<open>None\<close> is a member that is \<^verbatim>\<open>undefined\<close>; where the
  handler tells \<^verbatim>\<open>null\<close> from a value the member is an option again. The duration
  is a number literal.\<close>

record time_entry_patch =
  pt_project_id :: "nat option option"
  pt_date :: "string option"
  pt_start_time :: "string option option"
  pt_duration :: "rat option"
  pt_title :: "string option"
  pt_description :: "string option option"
  pt_internal_notes :: "string option option"
  pt_billable :: "bool option"

definition no_updates :: "time_entry_patch \<Rightarrow> bool" where
  "no_updates pt =
     (pt_project_id pt = None \<and> pt_date pt = None \<and> pt_start_time pt = None \<and>
      pt_duration pt = None \<and> pt_title pt = None \<and> pt_description pt = None \<and>
      pt_internal_notes pt = None \<and> pt_billable pt = None)"

text \<open>
  The schema \<^verbatim>\<open>timeEntryUpdate\<close> of middleware/validation.js, which \<^verbatim>\<open>validateBody\<close>
  holds the body against before the handler runs; the result is the list of error
  messages, in the order of the schema. The rule \<^verbatim>\<open>date\<close> asks \<^verbatim>\<open>Date.parse\<close>, whose
  answer to a string that is not in the ISO format is left to the implementation: it is
  a parameter of the model. An empty string is falsy and passes the rules \<^verbatim>\<open>date\<close> and
  \<^verbatim>\<open>maxLength\<close>.
\<close>

definition isNaN :: "number \<Rightarrow> bool" where
  "isNaN v = (v = NaN)"

definition validate_time_entry_update ::
  "(string \<Rightarrow> number) \<Rightarrow> time_entry_patch \<Rightarrow> string list" where
  "validate_time_entry_update Date_parse pt =
     (case pt_date pt of
        Some d \<Rightarrow> if d \<noteq> [] \<and> isNaN (Date_parse d) then [''date must be a valid date''] else []
      | None \<Rightarrow> []) @
     (case pt_duration pt of
        Some d \<Rightarrow> if \<not> isValidDuration (fl d)
                  then [''duration must be a positive number in 0.1 increments''] else []
      | None \<Rightarrow> []) @
     (case pt_title pt of
        Some t \<Rightarrow> if t \<noteq> [] \<and> 255 < length t
                  then [''title must be at most 255 characters''] else []
      | None \<Rightarrow> [])"

text \<open>The \<^verbatim>\<open>UPDATE time_entries SET ...\<close> on one row: the duration is rounded by
  \<^verbatim>\<open>roundToTenth\<close> and then by its \<^verbatim>\<open>DECIMAL(4,1)\<close> column, whose \<^verbatim>\<open>CHECK\<close> wants
  it positive; the title has its length bound. \<open>None\<close> is the raised error.\<close>

definition apply_patch :: "time_entry_patch \<Rightarrow> time_entry \<Rightarrow> time_entry option" where
  "apply_patch pt te =
     do {
       duration \<leftarrow> (case pt_duration pt of
                      None \<Rightarrow> Some (te_duration te)
                    | Some d \<Rightarrow> Option.bind (to_decimal 4 1 (roundToTenth (fl d)))
                                 (\<lambda>d'. if 0 < d' then Some d' else None));
       title \<leftarrow> (case pt_title pt of
                   None \<Rightarrow> Some (te_title te)
                 | Some x \<Rightarrow> if 255 < length x then None else Some x);
       Some (te\<lparr>te_project_id :=
                   (case pt_project_id pt of
                      None \<Rightarrow> te_project_id te
                    | Some p \<Rightarrow> if p = Some 0 then None else p),
                 te_date := (case pt_date pt of None \<Rightarrow> te_date te | Some d \<Rightarrow> d),
                 te_start_time :=
                   (case pt_start_time pt of None \<Rightarrow> te_start_time te | Some x \<Rightarrow> or_null x),
                 te_duration := duration,
                 te_title := title,
                 te_description :=
                   (case pt_description pt of None \<Rightarrow> te_description te | Some x \<Rightarrow> or_null x),
                 te_internal_notes :=
                   (case pt_internal_notes pt of
                      None \<Rightarrow> te_internal_notes te | Some x \<Rightarrow> or_null x),
                 te_billable := (case pt_billable pt of None \<Rightarrow> te_billable te | Some b \<Rightarrow> b)\<rparr>)
     }"

text \<open>A number as a member of a response: \<^verbatim>\<open>res.json\<close> writes a finite number as a
  literal that reads back as the same double, and \<^verbatim>\<open>NaN\<close> and the infinities as
  \<^verbatim>\<open>null\<close>.\<close>

definition js_number :: "number \<Rightarrow> js_val" where
  "js_number v = (case v of Finite x \<Rightarrow> Num x | _ \<Rightarrow> Null)"

text \<open>\<^verbatim>\<open>PUT /:id\<close>: \<^verbatim>\<open>validateId\<close>, \<^verbatim>\<open>validateBody('timeEntryUpdate')\<close>, then the
  handler.\<close>

definition put_time_entry ::
  "(string \<Rightarrow> number) \<Rightarrow> db \<Rightarrow> nat \<Rightarrow> time_entry_patch
     \<Rightarrow> db \<times> js_object http \<times> event_call list" where
  "put_time_entry Date_parse s i pt =
     (if \<not> validateId i then (s, invalid_id, [])
      else if validate_time_entry_update Date_parse pt \<noteq> []
      then (s, Fail 400 ''Validation failed'' (Details (validate_time_entry_update Date_parse pt)),
            [])
      else
        (case find_entry s i of
           None \<Rightarrow> (s, Fail 404 ''Time entry not found'' NoDetail, [])
         | Some existing \<Rightarrow>
             if te_invoiced existing
             then (s, Fail 400 ''Cannot edit invoiced time entry'' (InvoicedFlag True), [])
             else if (case pt_project_id pt of
                        Some (Some pid) \<Rightarrow>
                          find (\<lambda>p. p_id p = pid \<and> p_client_id p = te_client_id existing)
                            (projects s) = None
                      | _ \<Rightarrow> False)
             then (s, Fail 400 ''Project not found or does not belong to this client'' NoDetail,
                   [])
             else if no_updates pt
             then (s, Fail 400 ''No fields to update'' NoDetail, [])
             else
               (case apply_patch pt existing of
                  None \<Rightarrow> (s, Fail 500 ''Failed to update time entry'' NoDetail, [])
                | Some updated \<Rightarrow>
                    (let s' = s\<lparr>time_entries :=
                                  map (\<lambda>e. if te_id e = i then updated else e) (time_entries s)\<rparr>;
                         fullEntry = full_entry s' updated
                     in (s',
                         Ok 200 (set_key
                                   (set_key fullEntry ''duration''
                                      (js_number (parseFloat (te_duration updated))))
                                   ''effective_rate''
                                   (js_number (parseFloat (effective_rate s' updated)))),
                         [TimeEntryUpdated fullEntry (te_client_id existing)])))))"

text \<open>\<^verbatim>\<open>DELETE /:id\<close>, after \<^verbatim>\<open>validateId\<close>; the resources of the entry go with it
  (\<^verbatim>\<open>ON DELETE CASCADE\<close>).\<close>

definition delete_time_entry :: "db \<Rightarrow> nat \<Rightarrow> db \<times> unit http \<times> event_call list" where
  "delete_time_entry s i =
     (if \<not> validateId i then (s, invalid_id, [])
      else
        (case find_entry s i of
           None \<Rightarrow> (s, Fail 404 ''Time entry not found'' NoDetail, [])
         | Some existing \<Rightarrow>
             if te_invoiced existing
             then (s, Fail 400 ''Cannot delete invoiced time entry'' (InvoicedFlag True), [])
             else
               (s\<lparr>time_entries := filter (\<lambda>e. te_id e \<noteq> i) (time_entries s),
                   resources := filter (\<lambda>r. r_time_entry_id r \<noteq> i) (resources s)\<rparr>,
                Ok 200 (),
                [TimeEntryDeleted i (te_client_id existing)])))"

text \<open>The body of \<^verbatim>\<open>POST /:id/resources\<close> and the schema \<^verbatim>\<open>resource\<close> of
  middleware/validation.js that \<^verbatim>\<open>validateBody\<close> holds it against before the handler
  runs.\<close>

record resource_body =
  rb_type :: "string option"
  rb_name :: "string option"
  rb_url :: "string option"

definition required :: "string option \<Rightarrow> bool" where
  "required v = (v \<noteq> None \<and> v \<noteq> Some [])"

definition maxLength :: "nat \<Rightarrow> string option \<Rightarrow> bool" where
  "maxLength n v = (case v of None \<Rightarrow> True | Some x \<Rightarrow> x = [] \<or> \<not> n < length x)"

definition enum :: "string list \<Rightarrow> string option \<Rightarrow> bool" where
  "enum allowedValues v =
     (case v of None \<Rightarrow> True | Some x \<Rightarrow> x = [] \<or> x \<in> set allowedValues)"

definition validate_resource :: "resource_body \<Rightarrow> bool" where
  "validate_resource body =
     (required (rb_name body) \<and> maxLength 255 (rb_name body) \<and>
      required (rb_type body) \<and> enum [''link'', ''document''] (rb_type body) \<and>
      required (rb_url body))"

text \<open>\<^verbatim>\<open>INSERT INTO resources\<close>, with the primary key, \<^verbatim>\<open>NOT NULL\<close>, the
  \<^verbatim>\<open>CHECK\<close> on the type, the length of the name and the foreign key.\<close>

definition insert_resource :: "db \<Rightarrow> nat \<Rightarrow> resource_body \<Rightarrow> (db \<times> resource) option" where
  "insert_resource s entry_id body =
     (case (rb_type body, rb_name body, rb_url body) of
        (Some type, Some name, Some url) \<Rightarrow>
          if resources_id_seq s \<in> set (map r_id (resources s))
             \<or> type \<notin> set [''link'', ''document''] \<or> 255 < length name
             \<or> find_entry s entry_id = None
          then None
          else
            (let row = \<lparr>r_id = resources_id_seq s, r_time_entry_id = entry_id, r_type = type,
                         r_name = name, r_url = url\<rparr>
             in Some (s\<lparr>resources := resources s @ [row],
                        resources_id_seq := resources_id_seq s + 1\<rparr>, row))
      | _ \<Rightarrow> None)"

text \<open>\<^verbatim>\<open>POST /:id/resources\<close>.\<close>

definition post_resource ::
  "db \<Rightarrow> nat \<Rightarrow> resource_body \<Rightarrow> db \<times> resource http \<times> event_call list" where
  "post_resource s i body =
     (case find_entry s i of
        None \<Rightarrow> (s, Fail 404 ''Time entry not found'' NoDetail, [])
      | Some entry \<Rightarrow>
          (case insert_resource s i body of
             None \<Rightarrow> (s, Fail 500 ''Failed to add resource'' NoDetail, [])
           | Some (s', row) \<Rightarrow>
               (s', Ok 201 row,
                [TimeEntryUpdated [(''id'', Num (of_nat i))] (te_client_id entry)])))"

text \<open>\<^verbatim>\<open>DELETE /:id/resources/:resourceId\<close>; the resource id is a number here. The
  query joins the resource to its entry.\<close>

definition delete_resource :: "db \<Rightarrow> nat \<Rightarrow> nat \<Rightarrow> db \<times> unit http \<times> event_call list" where
  "delete_resource s i resourceId =
     (case Option.bind (find (\<lambda>r. r_id r = resourceId \<and> r_time_entry_id r = i) (resources s))
             (\<lambda>r. find_entry s (r_time_entry_id r)) of
        None \<Rightarrow> (s, Fail 404 ''Resource not found'' NoDetail, [])
      | Some te \<Rightarrow>
          (s\<lparr>resources := filter (\<lambda>r. r_id r \<noteq> resourceId) (resources s)\<rparr>,
           Ok 200 (),
           [TimeEntryUpdated [(''id'', Num (of_nat i))] (te_client_id te)]))"

section \<open>Connection registry (websocket/handler.js)\<close>

text \<open>
  A session row is a staff session with a user id or a client session with a client
  id (\<^verbatim>\<open>session_user_check\<close> of the schema). The connection handler copies the
  session onto the socket: \<open>userId\<close>, \<open>clientId\<close> and \<open>userType\<close>; \<open>ws_id\<close> is the
  identity of the socket object. The two module-level maps hold sockets: \<open>ws_clients\<close>
  is \<^verbatim>\<open>clients\<close>, keyed by the strings \<^verbatim>\<open>user:<id>\<close> and \<^verbatim>\<open>client:<id>\<close>, and
  \<open>clientSubscriptions\<close> is keyed by client id. A \<^verbatim>\<open>Map\<close> and a \<^verbatim>\<open>Set\<close> keep
  insertion order; they are lists. \<open>open_sockets\<close> are the sockets whose
  \<^verbatim>\<open>readyState\<close> is \<^verbatim>\<open>OPEN\<close>.
\<close>

datatype user_type = User | Client

datatype session =
    UserSession nat "string option"
  | ClientSession nat "string option"

record ws =
  ws_id :: nat
  userId :: "nat option"
  clientId :: "nat option"
  userType :: user_type

datatype client_key = UserKey nat | ClientKey nat

record registry =
  ws_clients :: "(client_key \<times> ws list) list"
  clientSubscriptions :: "(nat \<times> ws list) list"
  open_sockets :: "nat list"

definition no_connections :: registry where
  "no_connections = \<lparr>ws_clients = [], clientSubscriptions = [], open_sockets = []\<rparr>"

text \<open>What goes over a socket: \<^verbatim>\<open>{ type, data }\<close>, with the shapes of \<^verbatim>\<open>data\<close> the
  module sends.\<close>

datatype payload =
    EntryData js_object
  | EntryId nat
  | InvoiceData invoice
  | InvoiceRef nat string
  | Welcome user_type "string option"
  | TimerData "js_object option"
  | NoData

record message =
  msg_type :: string
  msg_data :: payload

type_synonym delivery = "ws \<times> message"

text \<open>\<^verbatim>\<open>JSON.stringify\<close> leaves out every key of an object whose value is
  \<^verbatim>\<open>undefined\<close>; that is all of it that is modelled, the result being the message
  as the receiver parses it.\<close>

definition stringify_object :: "js_object \<Rightarrow> js_object" where
  "stringify_object obj = filter (\<lambda>(k, v). v \<noteq> Undefined) obj"

definition stringify :: "message \<Rightarrow> message" where
  "stringify m =
     m\<lparr>msg_data := (case msg_data m of EntryData obj \<Rightarrow> EntryData (stringify_object obj)
                                      | d \<Rightarrow> d)\<rparr>"

definition set_add :: "'a \<Rightarrow> 'a list \<Rightarrow> 'a list" where
  "set_add x xs = (if x \<in> set xs then xs else xs @ [x])"

definition get_set :: "('k \<times> 'a list) list \<Rightarrow> 'k \<Rightarrow> 'a list" where
  "get_set m k = (case map_of m k of None \<Rightarrow> [] | Some xs \<Rightarrow> xs)"

definition is_open :: "registry \<Rightarrow> ws \<Rightarrow> bool" where
  "is_open reg w = (ws_id w \<in> set (open_sockets reg))"

text \<open>The \<^verbatim>\<open>connection\<close> handler, given the socket and what \<^verbatim>\<open>getSession\<close> found for
  its cookie (\<open>None\<close>: no cookie or no valid session; the socket is closed with code
  4001 and nothing is registered).\<close>

definition on_connection :: "registry \<Rightarrow> nat \<Rightarrow> session option \<Rightarrow> registry \<times> delivery list" where
  "on_connection reg wid found =
     (case found of
        None \<Rightarrow> (reg, [])
      | Some session \<Rightarrow>
          (let w = (case session of
                      UserSession uid _ \<Rightarrow>
                        \<lparr>ws_id = wid, userId = Some uid, clientId = None, userType = User\<rparr>
                    | ClientSession cid _ \<Rightarrow>
                        \<lparr>ws_id = wid, userId = None, clientId = Some cid, userType = Client\<rparr>);
               clientKey = (case session of UserSession uid _ \<Rightarrow> UserKey uid
                                          | ClientSession cid _ \<Rightarrow> ClientKey cid);
               clients1 = AList.update clientKey (set_add w (get_set (ws_clients reg) clientKey))
                            (ws_clients reg);
               subs1 = (case session of
                          UserSession _ _ \<Rightarrow> clientSubscriptions reg
                        | ClientSession cid _ \<Rightarrow>
                            AList.update cid (set_add w (get_set (clientSubscriptions reg) cid))
                              (clientSubscriptions reg));
               name = (case session of UserSession _ n \<Rightarrow> n | ClientSession _ n \<Rightarrow> n)
           in (\<lparr>ws_clients = clients1, clientSubscriptions = subs1,
                 open_sockets = set_add wid (open_sockets reg)\<rparr>,
               [(w, stringify \<lparr>msg_type = ''connected'', msg_data = Welcome (userType w) name\<rparr>)])))"

text \<open>The \<^verbatim>\<open>close\<close> handler. When it runs the socket's \<^verbatim>\<open>readyState\<close> is no longer
  \<^verbatim>\<open>OPEN\<close>. A set that becomes empty is deleted from its map.\<close>

definition remove_from :: "('k \<times> ws list) list \<Rightarrow> 'k \<Rightarrow> ws \<Rightarrow> ('k \<times> ws list) list" where
  "remove_from m k w =
     (case map_of m k of
        None \<Rightarrow> m
      | Some members \<Rightarrow>
          (let members' = removeAll w members
           in if members' = [] then AList.delete k m else AList.update k members' m))"

definition on_close :: "registry \<Rightarrow> ws \<Rightarrow> registry" where
  "on_close reg w =
     (let clientKey = (if userType w = User
                       then map_option UserKey (userId w) else map_option ClientKey (clientId w));
          clients1 = (case clientKey of None \<Rightarrow> ws_clients reg
                                      | Some k \<Rightarrow> remove_from (ws_clients reg) k w);
          subs1 = (case clientId w of
                     Some cid \<Rightarrow>
                       if userType w = Client \<and> cid \<noteq> 0
                       then remove_from (clientSubscriptions reg) cid w
                       else clientSubscriptions reg
                   | None \<Rightarrow> clientSubscriptions reg)
      in \<lparr>ws_clients = clients1, clientSubscriptions = subs1,
           open_sockets = removeAll (ws_id w) (open_sockets reg)\<rparr>)"

section \<open>Broadcaster (websocket/handler.js)\<close>

text \<open>Each function returns the \<^verbatim>\<open>ws.send\<close> calls it makes, in order.\<close>

definition broadcastToUser :: "registry \<Rightarrow> nat option \<Rightarrow> message \<Rightarrow> ws option \<Rightarrow> delivery list" where
  "broadcastToUser reg uid m excludeWs =
     (case uid of
        None \<Rightarrow> []
      | Some u \<Rightarrow>
          map (\<lambda>w. (w, stringify m))
            (filter (\<lambda>w. Some w \<noteq> excludeWs \<and> is_open reg w) (get_set (ws_clients reg) (UserKey u))))"

definition broadcastToClient :: "registry \<Rightarrow> nat \<Rightarrow> message \<Rightarrow> delivery list" where
  "broadcastToClient reg cid m =
     map (\<lambda>w. (w, stringify m)) (filter (is_open reg) (get_set (clientSubscriptions reg) cid))"

definition is_user_key :: "client_key \<Rightarrow> bool" where
  "is_user_key k = (case k of UserKey _ \<Rightarrow> True | ClientKey _ \<Rightarrow> False)"

definition broadcastToAllUsers :: "registry \<Rightarrow> message \<Rightarrow> delivery list" where
  "broadcastToAllUsers reg m =
     concat (map (\<lambda>(key, clientSet).
                    if is_user_key key
                    then map (\<lambda>w. (w, stringify m)) (filter (is_open reg) clientSet)
                    else [])
               (ws_clients reg))"

text \<open>\<^verbatim>\<open>handleMessage\<close>, on a message that parsed. \<^verbatim>\<open>message.data?.clientId\<close> is
  \<open>None\<close> when absent; zero is falsy.\<close>

datatype client_message =
    Ping
  | TimerStart "js_object option"
  | TimerStop "js_object option"
  | SubscribeClient "nat option"
  | UnsubscribeClient "nat option"
  | Unknown string

definition truthy_id :: "nat option \<Rightarrow> nat option" where
  "truthy_id x = (case x of Some n \<Rightarrow> if n = 0 then None else Some n | None \<Rightarrow> None)"

fun handleMessage :: "registry \<Rightarrow> ws \<Rightarrow> client_message \<Rightarrow> registry \<times> delivery list" where
  "handleMessage reg w Ping = (reg, [(w, stringify \<lparr>msg_type = ''pong'', msg_data = NoData\<rparr>)])"
| "handleMessage reg w (TimerStart d) =
     (reg, broadcastToUser reg (userId w) \<lparr>msg_type = ''timer:started'', msg_data = TimerData d\<rparr>
             (Some w))"
| "handleMessage reg w (TimerStop d) =
     (reg, broadcastToUser reg (userId w) \<lparr>msg_type = ''timer:stopped'', msg_data = TimerData d\<rparr>
             (Some w))"
| "handleMessage reg w (SubscribeClient c) =
     (case truthy_id c of
        Some cid \<Rightarrow>
          if userType w = User
          then (reg\<lparr>clientSubscriptions :=
                      AList.update cid (set_add w (get_set (clientSubscriptions reg) cid))
                        (clientSubscriptions reg)\<rparr>, [])
          else (reg, [])
      | None \<Rightarrow> (reg, []))"
| "handleMessage reg w (UnsubscribeClient c) =
     (case truthy_id c of
        Some cid \<Rightarrow>
          if userType w = User
          then (case map_of (clientSubscriptions reg) cid of
                  None \<Rightarrow> (reg, [])
                | Some subs \<Rightarrow>
                    (reg\<lparr>clientSubscriptions :=
                           AList.update cid (removeAll w subs) (clientSubscriptions reg)\<rparr>, []))
          else (reg, [])
      | None \<Rightarrow> (reg, []))"
| "handleMessage reg w (Unknown _) = (reg, [])"

text \<open>The five functions of \<^verbatim>\<open>events\<close>.\<close>

fun events :: "registry \<Rightarrow> event_call \<Rightarrow> delivery list" where
  "events reg (TimeEntryCreated entry cid) =
     broadcastToAllUsers reg \<lparr>msg_type = ''time_entry:created'', msg_data = EntryData entry\<rparr> @
     broadcastToClient reg cid
       \<lparr>msg_type = ''time_entry:created'',
        msg_data = EntryData (set_key entry ''internal_notes'' Undefined)\<rparr>"
| "events reg (TimeEntryUpdated entry cid) =
     broadcastToAllUsers reg \<lparr>msg_type = ''time_entry:updated'', msg_data = EntryData entry\<rparr> @
     broadcastToClient reg cid
       \<lparr>msg_type = ''time_entry:updated'',
        msg_data = EntryData (set_key entry ''internal_notes'' Undefined)\<rparr>"
| "events reg (TimeEntryDeleted entryId cid) =
     broadcastToAllUsers reg \<lparr>msg_type = ''time_entry:deleted'', msg_data = EntryId entryId\<rparr> @
     broadcastToClient reg cid
       \<lparr>msg_type = ''time_entry:deleted'', msg_data = EntryId entryId\<rparr>"
| "events reg (InvoiceCreated invoice) =
     broadcastToAllUsers reg \<lparr>msg_type = ''invoice:created'', msg_data = InvoiceData invoice\<rparr>"
| "events reg (InvoiceUpdated invoice) =
     broadcastToAllUsers reg \<lparr>msg_type = ''invoice:updated'', msg_data = InvoiceData invoice\<rparr> @
     (if status invoice = Sent
      then broadcastToClient reg (inv_client_id invoice)
             \<lparr>msg_type = ''invoice:sent'',
              msg_data = InvoiceRef (inv_id invoice) (invoice_number invoice)\<rparr>
      else [])"

text \<open>The life of the registry: connections, messages and disconnections, one after
  the other from the empty maps.\<close>

datatype ws_event = Connect nat "session option" | Receive ws client_message | Disconnect ws

fun ws_step :: "registry \<Rightarrow> ws_event \<Rightarrow> registry" where
  "ws_step reg (Connect wid found) = fst (on_connection reg wid found)"
| "ws_step reg (Receive w m) = fst (handleMessage reg w m)"
| "ws_step reg (Disconnect w) = on_close reg w"

definition ws_run :: "ws_event list \<Rightarrow> registry" where
  "ws_run evs = foldl ws_step no_connections evs"

definition forward :: "invoice_status \<Rightarrow> invoice_status \<Rightarrow> bool" where
  "forward a b =
     (a = b \<or> (a = Draft \<and> (b = Sent \<or> b = Paid)) \<or> ((a = Sent \<or> a = Overdue) \<and> b = Paid))"

definition example_invoice :: invoice where
  "example_invoice =
     \<lparr>inv_id = 1, inv_client_id = 1, invoice_number = ''2026-0001'', date_issued = ''2026-02-01'',
      date_due = None, subtotal = 400, tax_rate = 10, tax_amount = 40, total = 440,
      status = Draft, inv_notes = None\<rparr>"

definition example_store :: db where
  "example_store =
     \<lparr>clients = [\<lparr>c_id = 1, c_name = ''Acme'', c_hourly_rate = Some 100\<rparr>], projects = [],
      time_entries = [], invoices = [example_invoice], invoice_items = [], resources = [],
      invoices_id_seq = 2, invoice_items_id_seq = 1, resources_id_seq = 1\<rparr>"

text \<open>Every key in a table was drawn from the table's sequence, so the next value of
  the sequence is free.\<close>

definition fresh_keys :: "db \<Rightarrow> bool" where
  "fresh_keys s =
     (list_all (\<lambda>r. inv_id r < invoices_id_seq s) (invoices s) \<and>
      list_all (\<lambda>r. it_id r < invoice_items_id_seq s) (invoice_items s) \<and>
      list_all (\<lambda>r. r_id r < resources_id_seq s) (resources s))"

definition locked_entry :: time_entry where
  "locked_entry =
     \<lparr>te_id = 1, te_client_id = 1, te_project_id = None, te_date = ''2026-01-05'',
      te_start_time = None, te_duration = 2, te_title = ''Design review'',
      te_description = None, te_internal_notes = Some ''discount agreed, do not disclose'',
      te_billable = True, te_invoiced = True, te_invoice_id = Some 1\<rparr>"

definition free_entry :: time_entry where
  "free_entry = locked_entry\<lparr>te_id := 2, te_invoiced := False, te_invoice_id := None\<rparr>"

definition example_resource :: resource where
  "example_resource =
     \<lparr>r_id = 1, r_time_entry_id = 1, r_type = ''link'', r_name = ''minutes'',
      r_url = ''https://example.org/minutes''\<rparr>"

definition ledger_store :: db where
  "ledger_store =
     example_store\<lparr>time_entries := [locked_entry, free_entry],
                    resources := [example_resource], resources_id_seq := 2\<rparr>"

definition example_body :: resource_body where
  "example_body =
     \<lparr>rb_type = Some ''document'', rb_name = Some ''scope'', rb_url = Some ''/files/scope.pdf''\<rparr>"

definition example_patch :: time_entry_patch where
  "example_patch =
     \<lparr>pt_project_id = None, pt_date = None, pt_start_time = None, pt_duration = Some (3 / 2),
      pt_title = None, pt_description = None, pt_internal_notes = None, pt_billable = None\<rparr>"

text \<open>The body \<^verbatim>\<open>{"duration": 0.15}\<close>, which the schema refuses.\<close>

definition hasty_patch :: time_entry_patch where
  "hasty_patch = example_patch\<lparr>pt_duration := Some (15 / 100)\<rparr>"

text \<open>The sockets registered under a \<^verbatim>\<open>user:\<close> key, in the order
  \<^verbatim>\<open>broadcastToAllUsers\<close> visits them, and what it means for a message to carry the
  internal annotation.\<close>

definition staff_sockets :: "registry \<Rightarrow> ws list" where
  "staff_sockets reg = concat (map snd (filter (\<lambda>(key, clientSet). is_user_key key) (ws_clients reg)))"

definition to_staff :: "registry \<Rightarrow> message \<Rightarrow> delivery list" where
  "to_staff reg m = map (\<lambda>w. (w, m)) (filter (is_open reg) (staff_sockets reg))"

definition to_subscribers :: "registry \<Rightarrow> nat \<Rightarrow> message \<Rightarrow> delivery list" where
  "to_subscribers reg cid m =
     map (\<lambda>w. (w, m)) (filter (is_open reg) (get_set (clientSubscriptions reg) cid))"

definition without_key :: "string \<Rightarrow> js_object \<Rightarrow> js_object" where
  "without_key k obj = filter (\<lambda>(k', v). k' \<noteq> k) obj"

definition carries_internal_notes :: "message \<Rightarrow> bool" where
  "carries_internal_notes m =
     (case msg_data m of EntryData d \<Rightarrow> ''internal_notes'' \<in> set (map fst d) | _ \<Rightarrow> False)"

definition to_clients :: "delivery list \<Rightarrow> delivery list" where
  "to_clients ds = filter (\<lambda>(w, m). userType w = Client) ds"

definition staff_under_user_keys :: "registry \<Rightarrow> bool" where
  "staff_under_user_keys reg = list_all (\<lambda>w. userType w = User) (staff_sockets reg)"

definition staff_ws :: ws where
  "staff_ws = \<lparr>ws_id = 1, userId = Some 1, clientId = None, userType = User\<rparr>"

definition client_ws :: ws where
  "client_ws = \<lparr>ws_id = 2, userId = None, clientId = Some 7, userType = Client\<rparr>"

definition example_connections :: "ws_event list" where
  "example_connections =
     [Connect 1 (Some (UserSession 1 (Some ''Dana''))),
      Connect 2 (Some (ClientSession 7 (Some ''Acme'')))]"

definition example_entry :: js_object where
  "example_entry =
     [(''id'', Num 5), (''client_id'', Num 7), (''title'', Str ''Design review''),
      (''internal_notes'', Str ''discount agreed, do not disclose''), (''invoiced'', Bool False)]"

definition client_invoice :: invoice where
  "client_invoice = example_invoice\<lparr>inv_client_id := 7\<rparr>"

definition subscribe_then_leave :: "ws_event list" where
  "subscribe_then_leave =
     [Connect 1 (Some (UserSession 1 (Some ''Dana''))),
      Receive staff_ws (SubscribeClient (Some 7)),
      Disconnect staff_ws]"

definition redacted_message :: message where
  "redacted_message =
     \<lparr>msg_type = ''time_entry:created'',
      msg_data = EntryData [(''id'', Num 5), (''client_id'', Num 7),
                            (''title'', Str ''Design review''), (''invoiced'', Bool False)]\<rparr>"

text \<open>The format \<^verbatim>\<open>^[0-9]{4}-[0-9]{4}$\<close> of an invoice number.\<close>

definition number_format :: "string \<Rightarrow> bool" where
  "number_format str =
     (length str = 9 \<and> list_all is_digit (take 4 str) \<and> str ! 4 = CHR ''-'' \<and>
      list_all is_digit (drop 5 str))"

definition busy_year_store :: db where
  "busy_year_store =
     example_store\<lparr>invoices := [example_invoice\<lparr>invoice_number := ''2026-9999''\<rparr>]\<rparr>"

definition plain_request :: invoice_req where
  "plain_request =
     \<lparr>rq_client_id = 1, rq_date_issued = ''2026-12-30'', rq_date_due = None,
      rq_tax_rate = Some 10, rq_notes = None, rq_time_entry_ids = [],
      rq_items = [\<lparr>iq_description = Some ''Workshop'', iq_quantity = 1, iq_rate = 250\<rparr>]\<rparr>"

text \<open>
  Two requests in flight. Between its \<^verbatim>\<open>await\<close>s a handler gives way to the other
  requests of the process; the steps of one request that matter here are the queries
  before the transaction (\<open>Validating\<close>) and the transaction (\<open>Committing\<close>, taken as
  one step, which is all the isolation a transaction can give). A schedule names the
  request that takes the next step.
\<close>

datatype request_phase = Validating | Committing | Answered "invoice http"

fun request_step ::
  "nat \<Rightarrow> db \<Rightarrow> invoice_req \<times> request_phase \<Rightarrow> db \<times> (invoice_req \<times> request_phase)" where
  "request_step year s (rq, Validating) =
     (case validate_invoice_request s rq of
        Some failure \<Rightarrow> (s, (rq, Answered failure))
      | None \<Rightarrow> (s, (rq, Committing)))"
| "request_step year s (rq, Committing) =
     (case invoice_commit year s rq of (s', response, _) \<Rightarrow> (s', (rq, Answered response)))"
| "request_step year s (rq, Answered response) = (s, (rq, Answered response))"

fun run_schedule ::
  "nat \<Rightarrow> db \<Rightarrow> (invoice_req \<times> request_phase) list \<Rightarrow> nat list
     \<Rightarrow> db \<times> (invoice_req \<times> request_phase) list" where
  "run_schedule year s requests [] = (s, requests)"
| "run_schedule year s requests (k # ks) =
     (if k < length requests
      then (case request_step year s (requests ! k) of
              (s', r) \<Rightarrow> run_schedule year s' (requests[k := r]) ks)
      else run_schedule year s requests ks)"

definition hours_store :: db where
  "hours_store =
     \<lparr>clients = [\<lparr>c_id = 1, c_name = ''Acme'', c_hourly_rate = Some 100\<rparr>], projects = [],
      time_entries =
        [free_entry\<lparr>te_id := 1, te_duration := 2\<rparr>,
         free_entry\<lparr>te_id := 2, te_duration := 3 / 2\<rparr>,
         free_entry\<lparr>te_id := 3, te_duration := 1 / 2\<rparr>],
      invoices = [], invoice_items = [], resources = [],
      invoices_id_seq = 1, invoice_items_id_seq = 1, resources_id_seq = 1\<rparr>"

definition first_request :: invoice_req where
  "first_request =
     \<lparr>rq_client_id = 1, rq_date_issued = ''2026-02-01'', rq_date_due = None,
      rq_tax_rate = Some 10, rq_notes = None, rq_time_entry_ids = [1, 2], rq_items = []\<rparr>"

definition second_request :: invoice_req where
  "second_request = first_request\<lparr>rq_time_entry_ids := [2, 3]\<rparr>"

definition first_invoice :: invoice where
  "first_invoice =
     \<lparr>inv_id = 1, inv_client_id = 1, invoice_number = ''2026-0001'', date_issued = ''2026-02-01'',
      date_due = None, subtotal = 350, tax_rate = 10, tax_amount = 35, total = 385,
      status = Draft, inv_notes = None\<rparr>"

definition second_invoice :: invoice where
  "second_invoice =
     \<lparr>inv_id = 2, inv_client_id = 1, invoice_number = ''2026-0002'', date_issued = ''2026-02-01'',
      date_due = None, subtotal = 200, tax_rate = 10, tax_amount = 20, total = 220,
      status = Draft, inv_notes = None\<rparr>"

definition ten_thousandth :: invoice where
  "ten_thousandth =
     \<lparr>inv_id = 2, inv_client_id = 1, invoice_number = ''2026-10000'', date_issued = ''2026-12-30'',
      date_due = None, subtotal = 250, tax_rate = 10, tax_amount = 25, total = 275,
      status = Draft, inv_notes = None\<rparr>"

definition after_ten_thousandth :: db where
  "after_ten_thousandth =
     busy_year_store
       \<lparr>invoices := [example_invoice\<lparr>invoice_number := ''2026-9999''\<rparr>, ten_thousandth],
        invoice_items := [\<lparr>it_id = 1, it_invoice_id = 2, it_description = ''Workshop'',
                           it_quantity = 1, it_rate = 250, it_amount = 250\<rparr>],
        invoices_id_seq := 3, invoice_items_id_seq := 2\<rparr>"

definition billed :: "nat \<Rightarrow> time_entry \<Rightarrow> time_entry" where
  "billed invoice_id te = te\<lparr>te_invoiced := True, te_invoice_id := Some invoice_id\<rparr>"

definition after_first :: db where
  "after_first =
     hours_store
       \<lparr>time_entries :=
          [billed 1 (free_entry\<lparr>te_id := 1, te_duration := 2\<rparr>),
           billed 1 (free_entry\<lparr>te_id := 2, te_duration := 3 / 2\<rparr>),
           free_entry\<lparr>te_id := 3, te_duration := 1 / 2\<rparr>],
        invoices := [first_invoice], invoices_id_seq := 2\<rparr>"

definition after_both :: db where
  "after_both =
     hours_store
       \<lparr>time_entries :=
          [billed 1 (free_entry\<lparr>te_id := 1, te_duration := 2\<rparr>),
           billed 2 (free_entry\<lparr>te_id := 2, te_duration := 3 / 2\<rparr>),
           billed 2 (free_entry\<lparr>te_id := 3, te_duration := 1 / 2\<rparr>)],
        invoices := [first_invoice, second_invoice], invoices_id_seq := 3\<rparr>"



definition tenth_hour_store :: db where
  "tenth_hour_store =
     \<lparr>clients = [\<lparr>c_id = 1, c_name = ''Acme'', c_hourly_rate = Some (12344 / 100)\<rparr>],
      projects = [],
      time_entries = [free_entry\<lparr>te_id := 1, te_duration := 1 / 10\<rparr>],
      invoices = [], invoice_items = [], resources = [],
      invoices_id_seq = 1, invoice_items_id_seq = 1, resources_id_seq = 1\<rparr>"

definition tenth_hour_request :: invoice_req where
  "tenth_hour_request = first_request\<lparr>rq_time_entry_ids := [1]\<rparr>"

definition tenth_hour_invoice :: invoice where
  "tenth_hour_invoice =
     \<lparr>inv_id = 1, inv_client_id = 1, invoice_number = ''2026-0001'', date_issued = ''2026-02-01'',
      date_due = None, subtotal = 1234 / 100, tax_rate = 10, tax_amount = 123 / 100,
      total = 1358 / 100, status = Draft, inv_notes = None\<rparr>"

definition tenth_hour_billed :: db where
  "tenth_hour_billed =
     tenth_hour_store
       \<lparr>time_entries := [billed 1 (free_entry\<lparr>te_id := 1, te_duration := 1 / 10\<rparr>)],
        invoices := [tenth_hour_invoice], invoices_id_seq := 2\<rparr>"

definition tenth_hour_item :: item_body where
  "tenth_hour_item =
     \<lparr>ib_description = Some ''Travel'', ib_quantity = Some (1 / 10),
      ib_rate = Some (12344 / 100)\<rparr>"

definition travel_row :: invoice_item where
  "travel_row =
     \<lparr>it_id = 1, it_invoice_id = 1, it_description = ''Travel'', it_quantity = 1 / 10,
      it_rate = 12344 / 100, it_amount = 1234 / 100\<rparr>"

definition tenth_hour_with_item :: db where
  "tenth_hour_with_item =
     tenth_hour_billed
       \<lparr>invoices := [tenth_hour_invoice\<lparr>subtotal := 2468 / 100, tax_amount := 247 / 100,
                                           total := 2715 / 100\<rparr>],
        invoice_items := [travel_row], invoice_items_id_seq := 2\<rparr>"








section \<open>The invoice state machine only moves forward\<close>

lemma find_map_same:
  assumes "\<And>x. P (g x) = P x"
  shows "find P (map g xs) = map_option g (find P xs)"
  using assms by (induction xs) auto

lemma find_invoice_update:
  assumes "\<And>r. inv_id (f r) = inv_id r"
  shows "find_invoice (update_invoice s i f) j =
         map_option (\<lambda>r. if inv_id r = i then f r else r) (find_invoice s j)"
  unfolding find_invoice_def update_invoice_def
  by (simp add: find_map_same assms)

lemma post_send_draft:
  assumes "find_invoice s i = Some row0" "status row0 = Draft"
  shows "post_send s i =
           (update_invoice s i (\<lambda>r. r\<lparr>status := Sent\<rparr>), Ok 200 (row0\<lparr>status := Sent\<rparr>),
            [InvoiceUpdated (row0\<lparr>status := Sent\<rparr>)])"
proof -
  have "inv_id row0 = i"
    using assms(1) unfolding find_invoice_def by (auto simp: find_Some_iff)
  then show ?thesis
    using assms by (simp add: post_send_def find_invoice_update)
qed

lemma post_send_other:
  assumes "find_invoice s i = Some row0" "status row0 \<noteq> Draft"
  shows "post_send s i = (s, Fail 400 ''Invoice has already been sent'' NoDetail, [])"
  using assms by (simp add: post_send_def)

lemma post_paid_ok:
  assumes "find_invoice s i = Some row0" "status row0 = Sent \<or> status row0 = Overdue"
  shows "post_paid s i =
           (update_invoice s i (\<lambda>r. r\<lparr>status := Paid\<rparr>), Ok 200 (row0\<lparr>status := Paid\<rparr>),
            [InvoiceUpdated (row0\<lparr>status := Paid\<rparr>)])"
proof -
  have "inv_id row0 = i"
    using assms(1) unfolding find_invoice_def by (auto simp: find_Some_iff)
  then show ?thesis
    using assms by (auto simp add: post_paid_def find_invoice_update)
qed

lemma post_paid_draft:
  assumes "find_invoice s i = Some row0" "status row0 = Draft"
  shows "post_paid s i = (s, Fail 400 ''Invoice must be sent before marking as paid'' NoDetail, [])"
  using assms by (simp add: post_paid_def)

lemma post_paid_paid:
  assumes "find_invoice s i = Some row0" "status row0 = Paid"
  shows "post_paid s i = (s, Fail 400 ''Invoice is already paid'' NoDetail, [])"
  using assms by (simp add: post_paid_def)


lemma status_of_update:
  assumes "find_invoice s i = Some row0"
  shows "status_of (update_invoice s i (\<lambda>r. r\<lparr>status := st\<rparr>)) i = Some st"
proof -
  have "inv_id row0 = i"
    using assms unfolding find_invoice_def by (auto simp: find_Some_iff)
  then show ?thesis
    using assms by (simp add: status_of_def find_invoice_update)
qed

lemma transition_forward:
  assumes "status_of s i = Some st"
  shows "\<exists>st'. status_of (apply_transition s i t) i = Some st' \<and> forward st st'"
proof -
  from assms obtain row0 where r: "find_invoice s i = Some row0" and st: "status row0 = st"
    by (auto simp: status_of_def)
  show ?thesis
  proof (cases t)
    case Send
    show ?thesis
    proof (cases "st = Draft")
      case True
      then show ?thesis
        using Send r st by (simp add: post_send_draft status_of_update forward_def)
    next
      case False
      then show ?thesis
        using Send r st assms by (simp add: post_send_other forward_def)
    qed
  next
    case MarkPaid
    show ?thesis
    proof (cases st)
      case Draft
      then show ?thesis
        using MarkPaid r st assms by (simp add: post_paid_draft forward_def)
    next
      case Sent
      then show ?thesis
        using MarkPaid r st by (simp add: post_paid_ok status_of_update forward_def)
    next
      case Paid
      then show ?thesis
        using MarkPaid r st assms by (simp add: post_paid_paid forward_def)
    next
      case Overdue
      then show ?thesis
        using MarkPaid r st by (simp add: post_paid_ok status_of_update forward_def)
    qed
  qed
qed

lemma forward_trans: "forward a b \<Longrightarrow> forward b c \<Longrightarrow> forward a c"
  by (cases a; cases b; cases c) (simp_all add: forward_def)

lemma run_forward:
  assumes "status_of s i = Some st"
  shows "\<exists>st'. status_of (foldl (\<lambda>s'. apply_transition s' i) s ts) i = Some st' \<and> forward st st'"
  using assms
proof (induction ts arbitrary: s st)
  case Nil
  then show ?case by (simp add: forward_def)
next
  case (Cons t ts)
  from transition_forward [OF Cons.prems, of t]
  obtain st1 where 1: "status_of (apply_transition s i t) i = Some st1" and 2: "forward st st1"
    by blast
  from Cons.IH [OF 1] obtain st' where
    "status_of (foldl (\<lambda>s'. apply_transition s' i) (apply_transition s i t) ts) i = Some st'"
    "forward st1 st'" by blast
  then show ?case using 2 by (auto intro: forward_trans)
qed

text \<open>
  Claim C7. For an invoice that exists, \<^verbatim>\<open>send\<close> succeeds exactly when the status is
  draft, and sets it to sent; otherwise it is refused with status 400 and the store is
  unchanged. \<^verbatim>\<open>markPaid\<close> succeeds exactly when the status is sent or overdue, and sets
  it to paid; from draft and from paid it is refused with status 400 and the store is
  unchanged. Along any run of the two operations the status only moves forward on
  draft, sent (or overdue), paid.
\<close>

theorem invoice_transitions:
  assumes "find_invoice s i = Some row0"
  shows "(status row0 = Draft \<longrightarrow>
            post_send s i =
              (update_invoice s i (\<lambda>r. r\<lparr>status := Sent\<rparr>), Ok 200 (row0\<lparr>status := Sent\<rparr>),
               [InvoiceUpdated (row0\<lparr>status := Sent\<rparr>)]) \<and>
            status_of (fst (post_send s i)) i = Some Sent) \<and>
         (status row0 \<noteq> Draft \<longrightarrow>
            post_send s i = (s, Fail 400 ''Invoice has already been sent'' NoDetail, [])) \<and>
         (status row0 = Sent \<or> status row0 = Overdue \<longrightarrow>
            post_paid s i =
              (update_invoice s i (\<lambda>r. r\<lparr>status := Paid\<rparr>), Ok 200 (row0\<lparr>status := Paid\<rparr>),
               [InvoiceUpdated (row0\<lparr>status := Paid\<rparr>)]) \<and>
            status_of (fst (post_paid s i)) i = Some Paid) \<and>
         (status row0 = Draft \<longrightarrow>
            post_paid s i =
              (s, Fail 400 ''Invoice must be sent before marking as paid'' NoDetail, [])) \<and>
         (status row0 = Paid \<longrightarrow>
            post_paid s i = (s, Fail 400 ''Invoice is already paid'' NoDetail, [])) \<and>
         (\<forall>ts. \<exists>st'. status_of (foldl (\<lambda>s'. apply_transition s' i) s ts) i = Some st' \<and>
                     forward (status row0) st')"
proof -
  have st: "status_of s i = Some (status row0)"
    using assms by (simp add: status_of_def)
  show ?thesis
    using assms run_forward [OF st]
    by (simp add: post_send_draft post_send_other post_paid_ok post_paid_draft post_paid_paid
        status_of_update)
qed

text \<open>The theorem at a store that holds one draft invoice.\<close>

theorem invoice_transitions_witness:
  "find_invoice example_store 1 = Some example_invoice \<and>
   status example_invoice = Draft \<and>
   status_of (fst (post_send example_store 1)) 1 = Some Sent \<and>
   post_paid example_store 1 =
     (example_store, Fail 400 ''Invoice must be sent before marking as paid'' NoDetail, []) \<and>
   (\<exists>st'. status_of (foldl (\<lambda>s'. apply_transition s' 1) example_store [MarkPaid, Send, Send, MarkPaid]) 1
            = Some st' \<and> forward Draft st')"
proof -
  have h: "find_invoice example_store 1 = Some example_invoice"
    by (simp add: find_invoice_def example_store_def example_invoice_def)
  have d: "status example_invoice = Draft"
    by (simp add: example_invoice_def)
  note T = invoice_transitions [OF h]
  have 1: "status_of (fst (post_send example_store 1)) 1 = Some Sent"
    by (rule T [THEN conjunct1, THEN mp, OF d, THEN conjunct2])
  have 2: "post_paid example_store 1 =
      (example_store, Fail 400 ''Invoice must be sent before marking as paid'' NoDetail, [])"
    by (rule T [THEN conjunct2, THEN conjunct2, THEN conjunct2, THEN conjunct1, THEN mp, OF d])
  have 3: "\<exists>st'. status_of (foldl (\<lambda>s'. apply_transition s' 1) example_store
                          [MarkPaid, Send, Send, MarkPaid]) 1 = Some st' \<and>
                 forward (status example_invoice) st'"
    by (rule T [THEN conjunct2, THEN conjunct2, THEN conjunct2, THEN conjunct2, THEN conjunct2,
          THEN spec])
  show ?thesis
    using h d 1 2 3 by simp
qed

section \<open>Doubles\<close>

subsection \<open>Exponents\<close>

text \<open>\<open>length_in b n\<close> is the number of digits of \<open>n\<close> in base \<open>b\<close>, and \<open>exponent b x\<close> is
  the one integer \<open>e\<close> with \<open>b ^ e \<le> \<bar>x\<bar> < b ^ (e + 1)\<close>.\<close>

lemma length_in_bounds:
  assumes "2 \<le> b" "0 < n"
  shows "b ^ (length_in b n - 1) \<le> n \<and> n < b ^ length_in b n"
  using assms
proof (induction b n rule: length_in.induct)
  case (1 b n)
  show ?case
  proof (cases "n div b = 0")
    case True
    then have "n < b" using 1(2) by (simp add: div_eq_0_iff)
    moreover have "length_in b n = 1"
      using 1(2,3) True by (simp add: length_in.simps [of b n] length_in.simps [of b 0])
    ultimately show ?thesis using 1(3) by simp
  next
    case False
    then have pos: "0 < n div b" by simp
    have ih: "b ^ (length_in b (n div b) - 1) \<le> n div b \<and> n div b < b ^ length_in b (n div b)"
      using 1(1) 1(2) 1(3) pos by simp
    define l where "l = length_in b (n div b)"
    have l: "0 < l"
      using pos 1(2) unfolding l_def by (simp add: length_in.simps [of b "n div b"])
    have len: "length_in b n = Suc l"
      using 1(2,3) unfolding l_def by (simp add: length_in.simps [of b n])
    have "b ^ l = b * b ^ (l - 1)"
      using l by (cases l) simp_all
    also have "\<dots> \<le> b * (n div b)"
      using ih unfolding l_def by simp
    also have "\<dots> \<le> n" by simp
    finally have lower: "b ^ l \<le> n" .
    have "n div b + 1 \<le> b ^ l"
      using ih unfolding l_def by simp
    then have "b * (n div b + 1) \<le> b * b ^ l"
      by (rule mult_le_mono2)
    moreover have "n < b * (n div b + 1)"
      using 1(2) by (metis Suc_eq_plus1 dividend_less_times_div mult.commute mult_Suc_right not_less zero_less_iff_neq_zero not_numeral_le_zero)
    ultimately have upper: "n < b ^ Suc l" by simp
    show ?thesis using lower upper len by simp
  qed
qed


lemma exponent_bounds:
  assumes b: "2 \<le> b" and x: "x \<noteq> 0"
  shows "of_nat b powi exponent b x \<le> \<bar>x\<bar> \<and> \<bar>x\<bar> < of_nat b powi (exponent b x + 1)"
proof (cases "1 \<le> \<bar>x\<bar>")
  case True
  define n where "n = nat \<lfloor>\<bar>x\<bar>\<rfloor>"
  define l where "l = length_in b n"
  have fl1: "1 \<le> \<lfloor>\<bar>x\<bar>\<rfloor>" using True by (simp add: le_floor_iff)
  then have n: "0 < n" unfolding n_def by simp
  have nx: "of_nat n \<le> \<bar>x\<bar>" "\<bar>x\<bar> < of_nat n + 1"
    unfolding n_def using fl1 by (simp_all add: of_nat_nat) linarith
  have e: "exponent b x = int l - 1"
    using True by (simp add: exponent_def l_def n_def)
  from length_in_bounds [OF b n] have lb: "b ^ (l - 1) \<le> n" "n < b ^ l"
    unfolding l_def by simp_all
  have l: "0 < l"
    using lb(2) n by (cases l) simp_all
  have "(of_nat b :: rat) powi (int l - 1) = of_nat (b ^ (l - 1))"
    using l by (simp add: power_int_def nat_diff_distrib)
  also have "\<dots> \<le> of_nat n" using lb(1) by (simp only: of_nat_le_iff)
  finally have lower: "(of_nat b :: rat) powi (int l - 1) \<le> \<bar>x\<bar>" using nx(1) by simp
  have "n + 1 \<le> b ^ l" using lb(2) by simp
  then have "(of_nat (n + 1) :: rat) \<le> of_nat (b ^ l)" by (simp only: of_nat_le_iff)
  then have "\<bar>x\<bar> < of_nat (b ^ l)" using nx(2) by simp
  then have upper: "\<bar>x\<bar> < (of_nat b :: rat) powi (int l - 1 + 1)" by simp
  show ?thesis using lower upper unfolding e by simp
next
  case False
  define y where "y = 1 / \<bar>x\<bar>"
  have x0: "0 < \<bar>x\<bar>" "\<bar>x\<bar> < 1" using x False by simp_all
  have y1: "1 < y" unfolding y_def using x0 by simp
  define n where "n = nat (\<lceil>y\<rceil> - 1)"
  define l where "l = length_in b n"
  have c2: "2 \<le> \<lceil>y\<rceil>" using y1 by (simp add: le_ceiling_iff) 
  then have n: "0 < n" unfolding n_def by simp
  have ny: "of_nat n < y" "y \<le> of_nat n + 1"
    unfolding n_def using c2 by (simp_all add: of_nat_nat) linarith+
  have e: "exponent b x = - int l"
    using False by (simp add: exponent_def l_def n_def y_def)
  from length_in_bounds [OF b n] have lb: "b ^ (l - 1) \<le> n" "n < b ^ l"
    unfolding l_def by simp_all
  have l: "0 < l"
    using lb(2) n by (cases l) simp_all
  have bpos: "0 < (of_nat b :: rat) ^ k" for k using b by simp
  have "n + 1 \<le> b ^ l" using lb(2) by simp
  then have "(of_nat (n + 1) :: rat) \<le> of_nat (b ^ l)" by (simp only: of_nat_le_iff)
  then have "y \<le> of_nat b ^ l" using ny(2) by simp
  then have "1 / of_nat b ^ l \<le> 1 / y"
    using y1 bpos [of l] by (intro divide_left_mono mult_pos_pos) simp_all
  then have lower: "(of_nat b :: rat) powi (- int l) \<le> \<bar>x\<bar>"
    unfolding y_def by (simp add: power_int_minus_divide)
  have "(of_nat (b ^ (l - 1)) :: rat) \<le> of_nat n" using lb(1) by (simp only: of_nat_le_iff)
  then have "(of_nat b :: rat) ^ (l - 1) \<le> of_nat n" by (simp only: of_nat_power)
  then have "of_nat b ^ (l - 1) < y" using ny(1) by (rule le_less_trans)
  then have "1 / y < 1 / of_nat b ^ (l - 1)"
    using bpos [of "l - 1"] y1 by (intro divide_strict_left_mono mult_pos_pos) simp_all
  moreover have "(of_nat b :: rat) powi (- int l + 1) = 1 / of_nat b ^ (l - 1)"
  proof -
    have "- int l + 1 = - int (l - 1)" using l by simp
    then show ?thesis by (simp only: power_int_minus_divide power_int_of_nat)
  qed
  ultimately have upper: "\<bar>x\<bar> < (of_nat b :: rat) powi (- int l + 1)"
    unfolding y_def by simp
  show ?thesis using lower upper unfolding e by simp
qed

lemma exponent_eqI:
  assumes b: "2 \<le> b" and lo: "of_nat b powi e \<le> \<bar>x\<bar>" and hi: "\<bar>x\<bar> < of_nat b powi (e + 1)"
  shows "exponent b x = e"
proof -
  have b1: "1 < (of_nat b :: rat)" using b by simp
  have "0 < (of_nat b :: rat) powi e" using b by simp
  then have x: "x \<noteq> 0" using lo by auto
  note E = exponent_bounds [OF b x]
  have "(of_nat b :: rat) powi e < of_nat b powi (exponent b x + 1)"
    using lo E by linarith
  then have 1: "e < exponent b x + 1"
    using power_int_increasing [of "exponent b x + 1" e "of_nat b :: rat"] b1 by force
  have "(of_nat b :: rat) powi exponent b x < of_nat b powi (e + 1)"
    using hi E by linarith
  then have 2: "exponent b x < e + 1"
    using power_int_increasing [of "e + 1" "exponent b x" "of_nat b :: rat"] b1 by force
  show ?thesis using 1 2 by simp
qed


subsection \<open>Rounding to the nearest double\<close>

lemma round_even_range: "\<lfloor>x\<rfloor> \<le> round_even x \<and> round_even x \<le> \<lfloor>x\<rfloor> + 1"
  by (simp add: round_even_def)

lemma round_even_unique:
  assumes "\<bar>x - of_int m\<bar> < 1 / 2"
  shows "round_even x = m"
proof -
  have f: "of_int \<lfloor>x\<rfloor> \<le> x" "x < of_int \<lfloor>x\<rfloor> + 1" by linarith+
  show ?thesis
  proof (cases "x - of_int \<lfloor>x\<rfloor> < 1 / 2")
    case True
    then have "\<lfloor>x\<rfloor> = m" using assms f by linarith
    then show ?thesis using True by (simp add: round_even_def)
  next
    case False
    then have "\<lfloor>x\<rfloor> + 1 = m" using assms f by linarith
    moreover from this have "1 / 2 < x - of_int \<lfloor>x\<rfloor>" using assms f by linarith
    ultimately show ?thesis using False by (simp add: round_even_def)
  qed
qed

lemma round_even_tie:
  assumes "x = of_int n + 1 / 2"
  shows "round_even x = (if even n then n else n + 1)"
proof -
  have "\<lfloor>x\<rfloor> = n" unfolding assms by (simp add: floor_eq_iff)
  then show ?thesis unfolding round_even_def assms by simp
qed

lemma round_even_of_int: "round_even (of_int m) = m"
  by (rule round_even_unique) simp

lemma round_even_mono:
  assumes "a \<le> b"
  shows "round_even a \<le> round_even b"
proof (cases "\<lfloor>a\<rfloor> = \<lfloor>b\<rfloor>")
  case True
  then show ?thesis using assms by (auto simp: round_even_def)
next
  case False
  then have "\<lfloor>a\<rfloor> + 1 \<le> \<lfloor>b\<rfloor>" using floor_mono [OF assms] by simp
  then show ?thesis
    using round_even_range [of a] round_even_range [of b] by linarith
qed

text \<open>The rounding of a value whose binade is known: the rules by which the doubles of
  the examples below are computed.\<close>

lemma quantum_pos: "0 < quantum x"
  by (simp add: quantum_def)

lemma quantum_is:
  assumes "2 powi e \<le> \<bar>x\<bar>" "\<bar>x\<bar> < 2 powi (e + 1)"
  shows "quantum x = 2 powi (max e (- 1022) - 52)"
  using exponent_eqI [of 2 e x] assms by (simp add: quantum_def)

lemma nearest_is:
  assumes "2 powi e \<le> \<bar>x\<bar>" "\<bar>x\<bar> < 2 powi (e + 1)"
    and "\<bar>x / 2 powi (max e (- 1022) - 52) - of_int m\<bar> < 1 / 2"
  shows "nearest x = of_int m * 2 powi (max e (- 1022) - 52)"
  using quantum_is [OF assms(1,2)] round_even_unique [OF assms(3)]
  by (simp add: nearest_def)

lemma fl_is:
  assumes "2 powi e \<le> \<bar>x\<bar>" "\<bar>x\<bar> < 2 powi (e + 1)"
    and "\<bar>x / 2 powi (max e (- 1022) - 52) - of_int m\<bar> < 1 / 2"
    and "y = of_int m * 2 powi (max e (- 1022) - 52)"
    and "\<bar>y\<bar> < 2 ^ 1024"
  shows "fl x = Finite y"
  using nearest_is [OF assms(1-3)] assms(4,5) by (simp add: fl_def)

lemma fl_tie:
  assumes "2 powi e \<le> \<bar>x\<bar>" "\<bar>x\<bar> < 2 powi (e + 1)"
    and "x / 2 powi (max e (- 1022) - 52) = of_int n + 1 / 2"
    and "y = of_int (if even n then n else n + 1) * 2 powi (max e (- 1022) - 52)"
    and "\<bar>y\<bar> < 2 ^ 1024"
  shows "fl x = Finite y"
  using quantum_is [OF assms(1,2)] round_even_tie [OF assms(3)] assms(4,5)
  by (simp add: fl_def nearest_def)

lemma fl_zero: "fl 0 = Finite 0"
  by (simp add: fl_def nearest_def round_even_def)

lemma fl_Finite_iff: "fl c = Finite x \<longleftrightarrow> nearest c = x \<and> \<bar>x\<bar> < 2 ^ 1024"
  by (auto simp: fl_def)

text \<open>Rounding is monotone on the non-negative values.\<close>

lemma nearest_nonneg:
  assumes "0 \<le> x"
  shows "0 \<le> nearest x"
proof -
  have "0 \<le> x / quantum x" using assms quantum_pos [of x] by simp
  from round_even_mono [OF this] have "0 \<le> round_even (x / quantum x)"
    using round_even_of_int [of 0] by simp
  then show ?thesis using quantum_pos [of x] by (simp add: nearest_def)
qed

lemma nearest_mono:
  assumes "0 \<le> x" "x \<le> y"
  shows "nearest x \<le> nearest y"
proof (cases "x = 0")
  case True
  have "nearest 0 = 0" using round_even_of_int [of 0] by (simp add: nearest_def)
  then show ?thesis using True nearest_nonneg [of y] assms by simp
next
  case False
  then have x: "0 < x" and y: "0 < y" using assms by simp_all
  define ex where "ex = max (exponent 2 x) (- 1022)"
  define ey where "ey = max (exponent 2 y) (- 1022)"
  note Ex = exponent_bounds [of 2 x] and Ey = exponent_bounds [of 2 y]
  have "(2 :: rat) powi exponent 2 x < 2 powi (exponent 2 y + 1)"
    using Ex Ey x y assms by simp
  then have "exponent 2 x < exponent 2 y + 1"
    using power_int_increasing [of "exponent 2 y + 1" "exponent 2 x" "2 :: rat"] by force
  then have le: "ex \<le> ey" unfolding ex_def ey_def by simp
  have qx: "quantum x = 2 powi (ex - 52)" and qy: "quantum y = 2 powi (ey - 52)"
    by (simp_all add: quantum_def ex_def ey_def)
  show ?thesis
  proof (cases "ex = ey")
    case True
    then have q: "quantum y = quantum x" using qx qy by simp
    have "x / quantum x \<le> y / quantum x"
      using assms quantum_pos [of x] by (simp add: divide_right_mono)
    from round_even_mono [OF this] show ?thesis
      using quantum_pos [of x] by (simp add: nearest_def q)
  next
    case False
    then have lt: "ex < ey" using le by simp
    then have ey: "ey = exponent 2 y" unfolding ey_def ex_def by linarith
    have "exponent 2 x + 1 \<le> ey" using lt unfolding ex_def by linarith
    then have "(2 :: rat) powi (exponent 2 x + 1) \<le> 2 powi ey"
      by (intro power_int_increasing) simp_all
    then have xB: "x \<le> 2 powi ey" using Ex x by simp
    have By: "2 powi ey \<le> y" using Ey y ey by simp
    define N :: int where "N = 2 ^ nat (ey - ex + 52)"
    have "(2 :: rat) powi ey = 2 powi (ey - ex + 52) * 2 powi (ex - 52)"
      by (simp flip: power_int_add)
    also have "(2 :: rat) powi (ey - ex + 52) = of_int N"
      using lt by (simp add: N_def power_int_def)
    finally have B: "(2 :: rat) powi ey = of_int N * quantum x" using qx by simp
    have "x / quantum x \<le> of_int N"
      using xB quantum_pos [of x] unfolding B by (simp add: pos_divide_le_eq)
    from round_even_mono [OF this] have "round_even (x / quantum x) \<le> N"
      by (simp add: round_even_of_int)
    then have "nearest x \<le> of_int N * quantum x"
      using quantum_pos [of x] by (simp add: nearest_def)
    then have 1: "nearest x \<le> 2 powi ey" using B by simp
    have B': "(2 :: rat) powi ey = of_int (2 ^ 52) * quantum y"
      using power_int_add [of "2 :: rat" 52 "ey - 52"] qy by simp
    have "of_int (2 ^ 52) \<le> y / quantum y"
      using By quantum_pos [of y] unfolding B' by (simp add: pos_le_divide_eq)
    from round_even_mono [OF this] have "2 ^ 52 \<le> round_even (y / quantum y)"
      by (simp only: round_even_of_int)
    then have "(of_int (2 ^ 52) :: rat) \<le> of_int (round_even (y / quantum y))"
      by (simp only: of_int_le_iff)
    then have "of_int (2 ^ 52) * quantum y \<le> nearest y"
      using quantum_pos [of y] unfolding nearest_def
      by (intro mult_right_mono) simp_all
    then have 2: "2 powi ey \<le> nearest y" using B' by simp
    show ?thesis using 1 2 by simp
  qed
qed

subsection \<open>The shortest decimal of a double\<close>

text \<open>The candidates with fewer digits lie further from \<open>x\<close> on either side, so when the
  two candidates of \<open>k\<close> digits do not read back as \<open>x\<close>, none with fewer digits does.\<close>

lemma unit_at_pos: "0 < unit_at k x"
  by (simp add: unit_at_def)

lemma unit_at_coarser:
  assumes "j \<le> k"
  shows "unit_at j x = of_int (10 ^ (k - j)) * unit_at k x"
proof -
  have "exponent 10 x + 1 - int j = int (k - j) + (exponent 10 x + 1 - int k)"
    using assms by simp
  then have "unit_at j x = 10 powi int (k - j) * unit_at k x"
    unfolding unit_at_def by (simp only: power_int_add [of "10 :: rat", simplified])
  then show ?thesis by simp
qed

lemma below_le: "decimal_below k x \<le> x"
proof -
  have "of_int \<lfloor>x / unit_at k x\<rfloor> * unit_at k x \<le> x / unit_at k x * unit_at k x"
    using unit_at_pos [of k x] by (intro mult_right_mono) simp_all
  then show ?thesis
    using unit_at_pos [of k x] unfolding decimal_below_def by simp
qed

lemma above_gt: "x < decimal_above k x"
proof -
  have "x / unit_at k x < of_int \<lfloor>x / unit_at k x\<rfloor> + 1" by linarith
  then have "x / unit_at k x * unit_at k x < (of_int \<lfloor>x / unit_at k x\<rfloor> + 1) * unit_at k x"
    using unit_at_pos [of k x] by (intro mult_strict_right_mono) simp_all
  then have "x < (of_int \<lfloor>x / unit_at k x\<rfloor> + 1) * unit_at k x"
    using unit_at_pos [of k x] by simp
  then show ?thesis unfolding decimal_above_def decimal_below_def by (simp add: algebra_simps)
qed

lemma below_nonneg:
  assumes "0 \<le> x"
  shows "0 \<le> decimal_below k x"
proof -
  have "0 \<le> x / unit_at k x" using assms unit_at_pos [of k x] by simp
  then have "0 \<le> \<lfloor>x / unit_at k x\<rfloor>" by simp
  then show ?thesis using unit_at_pos [of k x] unfolding decimal_below_def by simp
qed

lemma below_mono:
  assumes "j \<le> k"
  shows "decimal_below j x \<le> decimal_below k x"
proof -
  define u where "u = unit_at k x"
  define N :: int where "N = 10 ^ (k - j)"
  have u: "0 < u" unfolding u_def by (rule unit_at_pos)
  have N: "0 < N" unfolding N_def by simp
  have uj: "unit_at j x = of_int N * u"
    unfolding u_def N_def by (rule unit_at_coarser [OF assms])
  have "of_int \<lfloor>x / (of_int N * u)\<rfloor> * of_int N \<le> x / (of_int N * u) * of_int N"
    using N by (intro mult_right_mono) simp_all
  then have "of_int \<lfloor>x / (of_int N * u)\<rfloor> * of_int N \<le> x / u"
    using N u by simp
  then have "of_int (\<lfloor>x / (of_int N * u)\<rfloor> * N) \<le> x / u" by simp
  then have "\<lfloor>x / (of_int N * u)\<rfloor> * N \<le> \<lfloor>x / u\<rfloor>" by (simp only: le_floor_iff)
  then have "(of_int (\<lfloor>x / (of_int N * u)\<rfloor> * N) :: rat) \<le> of_int \<lfloor>x / u\<rfloor>"
    by (simp only: of_int_le_iff)
  then have "of_int (\<lfloor>x / (of_int N * u)\<rfloor> * N) * u \<le> of_int \<lfloor>x / u\<rfloor> * u"
    using u by (intro mult_right_mono) simp_all
  then show ?thesis unfolding decimal_below_def uj u_def [symmetric] by (simp add: algebra_simps)
qed

lemma above_mono:
  assumes "j \<le> k"
  shows "decimal_above k x \<le> decimal_above j x"
proof -
  define u where "u = unit_at k x"
  define N :: int where "N = 10 ^ (k - j)"
  have u: "0 < u" unfolding u_def by (rule unit_at_pos)
  have N: "0 < N" unfolding N_def by simp
  have uj: "unit_at j x = of_int N * u"
    unfolding u_def N_def by (rule unit_at_coarser [OF assms])
  have "x / (of_int N * u) < of_int \<lfloor>x / (of_int N * u)\<rfloor> + 1" by linarith
  then have "x / (of_int N * u) * of_int N < (of_int \<lfloor>x / (of_int N * u)\<rfloor> + 1) * of_int N"
    using N by (intro mult_strict_right_mono) simp_all
  then have "x / u < (of_int \<lfloor>x / (of_int N * u)\<rfloor> + 1) * of_int N"
    using N u by simp
  then have "x / u < of_int ((\<lfloor>x / (of_int N * u)\<rfloor> + 1) * N)" by simp
  then have "\<lfloor>x / u\<rfloor> < (\<lfloor>x / (of_int N * u)\<rfloor> + 1) * N" by (simp only: floor_less_iff)
  then have "\<lfloor>x / u\<rfloor> + 1 \<le> (\<lfloor>x / (of_int N * u)\<rfloor> + 1) * N" by simp
  then have "(of_int (\<lfloor>x / u\<rfloor> + 1) :: rat) \<le> of_int ((\<lfloor>x / (of_int N * u)\<rfloor> + 1) * N)"
    by (simp only: of_int_le_iff)
  then have "of_int (\<lfloor>x / u\<rfloor> + 1) * u \<le> of_int ((\<lfloor>x / (of_int N * u)\<rfloor> + 1) * N) * u"
    using u by (intro mult_right_mono) simp_all
  then show ?thesis
    unfolding decimal_above_def decimal_below_def uj u_def [symmetric] by (simp add: algebra_simps)
qed

lemma coarser_digits_fail:
  assumes x: "0 \<le> x" and dbl: "fl x = Finite x" and jk: "j \<le> k"
    and lo: "fl (decimal_below k x) \<noteq> Finite x" and hi: "fl (decimal_above k x) \<noteq> Finite x"
  shows "digits j x = None"
proof -
  from dbl have nx: "nearest x = x" and bound: "\<bar>x\<bar> < 2 ^ 1024"
    by (simp_all add: fl_Finite_iff)
  have "fl (decimal_below j x) \<noteq> Finite x"
  proof
    assume "fl (decimal_below j x) = Finite x"
    then have "nearest (decimal_below j x) = x" by (simp add: fl_Finite_iff)
    moreover have "nearest (decimal_below j x) \<le> nearest (decimal_below k x)"
      by (rule nearest_mono [OF below_nonneg [OF x] below_mono [OF jk]])
    moreover have "nearest (decimal_below k x) \<le> nearest x"
      by (rule nearest_mono [OF below_nonneg [OF x] below_le])
    ultimately have "nearest (decimal_below k x) = x" using nx by simp
    then show False using lo bound by (simp add: fl_Finite_iff)
  qed
  moreover have "fl (decimal_above j x) \<noteq> Finite x"
  proof
    assume "fl (decimal_above j x) = Finite x"
    then have "nearest (decimal_above j x) = x" by (simp add: fl_Finite_iff)
    moreover have "nearest (decimal_above k x) \<le> nearest (decimal_above j x)"
      using above_gt [of x k] x by (intro nearest_mono above_mono [OF jk]) simp
    moreover have "nearest x \<le> nearest (decimal_above k x)"
      using above_gt [of x k] by (intro nearest_mono x) simp
    ultimately have "nearest (decimal_above k x) = x" using nx by simp
    then show False using hi bound by (simp add: fl_Finite_iff)
  qed
  ultimately show ?thesis by (simp add: digits_def)
qed

text \<open>The shortest decimal of a positive double, from the candidates of \<open>k\<close> digits that
  read back and those of \<open>k - 1\<close> digits that do not.\<close>

lemma shortest_from_skip:
  assumes "\<And>j. k0 \<le> j \<Longrightarrow> j < k \<Longrightarrow> digits j x = None"
    and "digits k x = Some d" and "k0 \<le> k" and "k - k0 < n"
  shows "shortest_from n k0 x = d"
  using assms
proof (induction n arbitrary: k0)
  case 0
  then show ?case by simp
next
  case (Suc n)
  show ?case
  proof (cases "k0 = k")
    case True
    then show ?thesis using Suc.prems(2) by simp
  next
    case False
    then have lt: "k0 < k" using Suc.prems(3) by simp
    then have "digits k0 x = None" using Suc.prems(1) by simp
    moreover have "shortest_from n (Suc k0) x = d"
      using Suc.prems lt by (intro Suc.IH) simp_all
    ultimately show ?thesis by simp
  qed
qed

lemma shortest_decimal_is:
  assumes x: "0 < x" and dbl: "fl x = Finite x" and k: "1 \<le> k" "k \<le> 17"
    and lo: "1 < k \<Longrightarrow> fl (decimal_below (k - 1) x) \<noteq> Finite x"
    and hi: "1 < k \<Longrightarrow> fl (decimal_above (k - 1) x) \<noteq> Finite x"
    and d: "digits k x = Some d"
  shows "shortest_decimal x = d"
proof -
  have "digits j x = None" if "1 \<le> j" "j < k" for j
  proof -
    have "1 < k" "j \<le> k - 1" using that by simp_all
    then show ?thesis
      using x by (intro coarser_digits_fail [OF _ dbl _ lo hi]) simp_all
  qed
  then have "shortest_from 17 1 x = d"
    using d k by (intro shortest_from_skip [where k = k]) simp_all
  then show ?thesis using x by (simp add: shortest_decimal_def)
qed

text \<open>The floor of a quotient of numerals, for the evaluation of the roundings.\<close>

lemma floor_rat_numeral:
  "\<lfloor>numeral a / numeral b :: rat\<rfloor> = numeral a div numeral b"
  "\<lfloor>- numeral a / numeral b :: rat\<rfloor> = - numeral a div numeral b"
  "\<lfloor>1 / numeral b :: rat\<rfloor> = 1 div numeral b"
  "\<lfloor>- (numeral a / numeral b) :: rat\<rfloor> = - numeral a div numeral b"
  using floor_divide_of_int_eq [of "numeral a" "numeral b", where ?'a = rat]
    floor_divide_of_int_eq [of "- numeral a" "numeral b", where ?'a = rat]
    floor_divide_of_int_eq [of 1 "numeral b", where ?'a = rat]
  by simp_all

section \<open>The invoice lock on time entries\<close>

text \<open>The durations 1.5 and 0.15 before the schema: ten times 0.15 is 1.5 in doubles, half
  a tenth away from the next integer.\<close>

lemma fl_1_5: "fl (3 / 2) = Finite (3 / 2)"
  by (rule fl_is [where e = 0 and m = 6755399441055744]) simp_all

lemma fl_15: "fl 15 = Finite 15"
  by (rule fl_is [where e = 3 and m = 8444249301319680]) simp_all

lemma fl_0_001: "fl (1 / 1000) = Finite (1152921504606847 / 1152921504606846976)"
  by (rule fl_is [where e = "- 10" and m = 4611686018427388]) simp_all

lemma fl_0_15: "fl (3 / 20) = Finite (5404319552844595 / 36028797018963968)"
  by (rule fl_is [where e = "- 3" and m = 5404319552844595]) simp_all

lemma fl_near_1_5: "fl (27021597764222975 / 18014398509481984) = Finite (3 / 2)"
  by (rule fl_is [where e = 0 and m = 6755399441055744]) simp_all

lemma fl_minus_0_5: "fl (- (1 / 2)) = Finite (- (1 / 2))"
  by (rule fl_is [where e = "- 1" and m = "- 4503599627370496"]) simp_all

lemmas duration_doubles = fl_1_5 fl_15 fl_0_001 fl_0_15 fl_near_1_5 fl_minus_0_5

lemma valid_duration: "isValidDuration (fl (3 / 2))"
  by (simp add: isValidDuration_def js_sub_def floor_rat_numeral fl_zero duration_doubles)

lemma invalid_duration: "\<not> isValidDuration (fl (15 / 100))"
  by (simp add: isValidDuration_def js_sub_def floor_rat_numeral fl_zero duration_doubles)

lemma put_locked:
  assumes "find_entry s i = Some e" "te_invoiced e" "0 < i"
    and "validate_time_entry_update Date_parse pt = []"
  shows "put_time_entry Date_parse s i pt =
           (s, Fail 400 ''Cannot edit invoiced time entry'' (InvoicedFlag True), [])"
  using assms by (simp add: put_time_entry_def validateId_def)

lemma put_invalid:
  assumes "0 < i" "validate_time_entry_update Date_parse pt \<noteq> []"
  shows "put_time_entry Date_parse s i pt =
           (s, Fail 400 ''Validation failed'' (Details (validate_time_entry_update Date_parse pt)),
            [])"
  using assms by (simp add: put_time_entry_def validateId_def)

lemma delete_locked:
  assumes "find_entry s i = Some e" "te_invoiced e" "0 < i"
  shows "delete_time_entry s i =
           (s, Fail 400 ''Cannot delete invoiced time entry'' (InvoicedFlag True), [])"
  using assms by (simp add: delete_time_entry_def validateId_def)

lemma put_not_locked:
  assumes "find_entry s i = Some e" "\<not> te_invoiced e"
  shows "fst (snd (put_time_entry Date_parse s i pt)) \<noteq>
           Fail 400 ''Cannot edit invoiced time entry'' (InvoicedFlag True)"
  using assms
  by (simp add: put_time_entry_def invalid_id_def Let_def split: option.splits)

lemma delete_not_locked:
  assumes "find_entry s i = Some e" "\<not> te_invoiced e" "0 < i"
  shows "delete_time_entry s i =
           (s\<lparr>time_entries := filter (\<lambda>x. te_id x \<noteq> i) (time_entries s),
               resources := filter (\<lambda>r. r_time_entry_id r \<noteq> i) (resources s)\<rparr>,
            Ok 200 (), [TimeEntryDeleted i (te_client_id e)])"
  using assms by (simp add: delete_time_entry_def validateId_def)

text \<open>
  Claim C8. For an entry whose \<^verbatim>\<open>invoiced\<close> flag is set, \<^verbatim>\<open>PUT /:id\<close> with a body
  that passes the schema \<^verbatim>\<open>timeEntryUpdate\<close> and \<^verbatim>\<open>DELETE /:id\<close> are refused with
  status 400 and \<^verbatim>\<open>invoiced: true\<close>, the store is returned as it was and nothing is
  broadcast. A body that the schema refuses is answered 400 \<^verbatim>\<open>Validation failed\<close> by
  \<^verbatim>\<open>validateBody\<close> before the handler reads the entry, and the store is as it was
  too. For an entry whose flag is not set the update is never answered with the refusal
  of the lock, and the deletion goes through. The id is positive, as \<^verbatim>\<open>validateId\<close>
  wants it, and \<^verbatim>\<open>Date.parse\<close> is any function.
\<close>

theorem invoiced_entry_locked:
  assumes "find_entry s i = Some e" and "0 < i"
  shows "(te_invoiced e \<longrightarrow>
            (validate_time_entry_update Date_parse pt = [] \<longrightarrow>
               put_time_entry Date_parse s i pt =
                 (s, Fail 400 ''Cannot edit invoiced time entry'' (InvoicedFlag True), [])) \<and>
            (validate_time_entry_update Date_parse pt \<noteq> [] \<longrightarrow>
               put_time_entry Date_parse s i pt =
                 (s, Fail 400 ''Validation failed''
                       (Details (validate_time_entry_update Date_parse pt)), [])) \<and>
            delete_time_entry s i =
              (s, Fail 400 ''Cannot delete invoiced time entry'' (InvoicedFlag True), [])) \<and>
         (\<not> te_invoiced e \<longrightarrow>
            fst (snd (put_time_entry Date_parse s i pt)) \<noteq>
              Fail 400 ''Cannot edit invoiced time entry'' (InvoicedFlag True) \<and>
            delete_time_entry s i =
              (s\<lparr>time_entries := filter (\<lambda>x. te_id x \<noteq> i) (time_entries s),
                  resources := filter (\<lambda>r. r_time_entry_id r \<noteq> i) (resources s)\<rparr>,
               Ok 200 (), [TimeEntryDeleted i (te_client_id e)]))"
  using assms put_locked put_invalid delete_locked put_not_locked delete_not_locked by blast

lemma ledger_entries:
  "find_entry ledger_store 1 = Some locked_entry"
  "find_entry ledger_store 2 = Some free_entry"
  "te_invoiced locked_entry" "\<not> te_invoiced free_entry"
  by (simp_all add: find_entry_def ledger_store_def locked_entry_def free_entry_def)

lemma example_patch_valid: "validate_time_entry_update Date_parse example_patch = []"
  using valid_duration by (simp add: validate_time_entry_update_def example_patch_def)

lemma hasty_patch_invalid:
  "validate_time_entry_update Date_parse hasty_patch =
     [''duration must be a positive number in 0.1 increments'']"
  using invalid_duration by (simp add: validate_time_entry_update_def hasty_patch_def example_patch_def)

text \<open>The theorem at a store with one invoiced and one unbilled entry, for the body
  \<^verbatim>\<open>{"duration": 1.5}\<close>, which passes the schema, and the body
  \<^verbatim>\<open>{"duration": 0.15}\<close>, which does not.\<close>

theorem invoiced_entry_locked_witness:
  "find_entry ledger_store 1 = Some locked_entry \<and> te_invoiced locked_entry \<and>
   validate_time_entry_update (\<lambda>d. NaN) example_patch = [] \<and>
   put_time_entry (\<lambda>d. NaN) ledger_store 1 example_patch =
     (ledger_store, Fail 400 ''Cannot edit invoiced time entry'' (InvoicedFlag True), []) \<and>
   validate_time_entry_update (\<lambda>d. NaN) hasty_patch =
     [''duration must be a positive number in 0.1 increments''] \<and>
   put_time_entry (\<lambda>d. NaN) ledger_store 1 hasty_patch =
     (ledger_store,
      Fail 400 ''Validation failed''
        (Details [''duration must be a positive number in 0.1 increments'']), []) \<and>
   delete_time_entry ledger_store 1 =
     (ledger_store, Fail 400 ''Cannot delete invoiced time entry'' (InvoicedFlag True), []) \<and>
   find_entry ledger_store 2 = Some free_entry \<and> \<not> te_invoiced free_entry \<and>
   fst (snd (put_time_entry (\<lambda>d. NaN) ledger_store 2 example_patch)) \<noteq>
     Fail 400 ''Cannot edit invoiced time entry'' (InvoicedFlag True) \<and>
   fst (snd (delete_time_entry ledger_store 2)) = Ok 200 ()"
proof -
  have pos: "0 < (1 :: nat)" "0 < (2 :: nat)" by simp_all
  note L = invoiced_entry_locked [OF ledger_entries(1) pos(1), of "\<lambda>d. NaN" example_patch]
  note H = invoiced_entry_locked [OF ledger_entries(1) pos(1), of "\<lambda>d. NaN" hasty_patch]
  note F = invoiced_entry_locked [OF ledger_entries(2) pos(2), of "\<lambda>d. NaN" example_patch]
  have v: "validate_time_entry_update (\<lambda>d. NaN) example_patch = []"
    by (rule example_patch_valid)
  have h: "validate_time_entry_update (\<lambda>d. NaN) hasty_patch =
     [''duration must be a positive number in 0.1 increments'']"
    by (rule hasty_patch_invalid)
  have h': "validate_time_entry_update (\<lambda>d. NaN) hasty_patch \<noteq> []"
    unfolding h by simp
  have 1: "put_time_entry (\<lambda>d. NaN) ledger_store 1 example_patch =
     (ledger_store, Fail 400 ''Cannot edit invoiced time entry'' (InvoicedFlag True), [])"
    by (rule L [THEN conjunct1, THEN mp, OF ledger_entries(3), THEN conjunct1, THEN mp, OF v])
  have 2: "put_time_entry (\<lambda>d. NaN) ledger_store 1 hasty_patch =
     (ledger_store,
      Fail 400 ''Validation failed''
        (Details [''duration must be a positive number in 0.1 increments'']), [])"
    using H [THEN conjunct1, THEN mp, OF ledger_entries(3), THEN conjunct2, THEN conjunct1,
        THEN mp, OF h']
    unfolding h .
  have 3: "delete_time_entry ledger_store 1 =
     (ledger_store, Fail 400 ''Cannot delete invoiced time entry'' (InvoicedFlag True), [])"
    by (rule L [THEN conjunct1, THEN mp, OF ledger_entries(3), THEN conjunct2, THEN conjunct2])
  have 4: "fst (snd (put_time_entry (\<lambda>d. NaN) ledger_store 2 example_patch)) \<noteq>
     Fail 400 ''Cannot edit invoiced time entry'' (InvoicedFlag True)"
    by (rule F [THEN conjunct2, THEN mp, OF ledger_entries(4), THEN conjunct1])
  have 5: "fst (snd (delete_time_entry ledger_store 2)) = Ok 200 ()"
    by (simp add: F [THEN conjunct2, THEN mp, OF ledger_entries(4), THEN conjunct2])
  show ?thesis
    using ledger_entries v h 1 2 3 4 5 by (intro conjI)
qed

section \<open>Resources are outside the invoice lock\<close>

lemma fresh_resource_key:
  assumes "fresh_keys s"
  shows "resources_id_seq s \<notin> set (map r_id (resources s))"
  using assms by (auto simp: fresh_keys_def list_all_iff)

lemma insert_resource_valid:
  assumes "find_entry s i = Some e" "fresh_keys s" "validate_resource body"
  shows "\<exists>type name url.
           rb_type body = Some type \<and> rb_name body = Some name \<and> rb_url body = Some url \<and>
           insert_resource s i body =
             Some (s\<lparr>resources := resources s @
                        [\<lparr>r_id = resources_id_seq s, r_time_entry_id = i, r_type = type,
                          r_name = name, r_url = url\<rparr>],
                      resources_id_seq := resources_id_seq s + 1\<rparr>,
                   \<lparr>r_id = resources_id_seq s, r_time_entry_id = i, r_type = type,
                    r_name = name, r_url = url\<rparr>)"
proof -
  from assms(3) obtain type name url where
    b: "rb_type body = Some type" "rb_name body = Some name" "rb_url body = Some url"
    and c: "type = ''link'' \<or> type = ''document''" "\<not> 255 < length name"
    by (auto simp: validate_resource_def required_def maxLength_def enum_def)
  have "resources_id_seq s \<notin> r_id ` set (resources s)"
    using fresh_resource_key [OF assms(2)] by simp
  then show ?thesis
    using b c assms(1) by (auto simp: insert_resource_def Let_def)
qed

text \<open>
  Claim C10. For an entry that exists, whatever its \<^verbatim>\<open>invoiced\<close> flag:
  \<^verbatim>\<open>POST /:id/resources\<close> with a body that passed \<^verbatim>\<open>validateBody('resource')\<close>
  inserts the resource, answers 201 with the new row and broadcasts an update; and
  \<^verbatim>\<open>DELETE /:id/resources/:resourceId\<close> for a resource of that entry deletes it,
  answers 200 and broadcasts an update. Neither handler reads the flag.
\<close>

theorem resources_ignore_lock:
  assumes "find_entry s i = Some e" and "fresh_keys s"
  shows "(validate_resource body \<longrightarrow>
            (\<exists>row. post_resource s i body =
                     (s\<lparr>resources := resources s @ [row],
                         resources_id_seq := resources_id_seq s + 1\<rparr>,
                      Ok 201 row,
                      [TimeEntryUpdated [(''id'', Num (of_nat i))] (te_client_id e)]) \<and>
                   r_time_entry_id row = i \<and> rb_type body = Some (r_type row) \<and>
                   rb_name body = Some (r_name row) \<and> rb_url body = Some (r_url row))) \<and>
         (\<forall>r. find (\<lambda>r. r_id r = resourceId \<and> r_time_entry_id r = i) (resources s) = Some r \<longrightarrow>
            delete_resource s i resourceId =
              (s\<lparr>resources := filter (\<lambda>r. r_id r \<noteq> resourceId) (resources s)\<rparr>,
               Ok 200 (),
               [TimeEntryUpdated [(''id'', Num (of_nat i))] (te_client_id e)]))"
proof (intro conjI impI allI)
  assume "validate_resource body"
  from insert_resource_valid [OF assms this]
  show "\<exists>row. post_resource s i body =
                 (s\<lparr>resources := resources s @ [row],
                     resources_id_seq := resources_id_seq s + 1\<rparr>,
                  Ok 201 row,
                  [TimeEntryUpdated [(''id'', Num (of_nat i))] (te_client_id e)]) \<and>
               r_time_entry_id row = i \<and> rb_type body = Some (r_type row) \<and>
               rb_name body = Some (r_name row) \<and> rb_url body = Some (r_url row)"
    using assms(1) by (auto simp: post_resource_def)
next
  fix r
  assume f: "find (\<lambda>r. r_id r = resourceId \<and> r_time_entry_id r = i) (resources s) = Some r"
  then have "r_time_entry_id r = i"
    by (auto simp: find_Some_iff)
  then show "delete_resource s i resourceId =
               (s\<lparr>resources := filter (\<lambda>r. r_id r \<noteq> resourceId) (resources s)\<rparr>,
                Ok 200 (),
                [TimeEntryUpdated [(''id'', Num (of_nat i))] (te_client_id e)])"
    using f assms(1) by (simp add: delete_resource_def)
qed

lemma ledger_fresh: "fresh_keys ledger_store"
  by (simp add: fresh_keys_def ledger_store_def example_store_def example_invoice_def
      example_resource_def)

lemma example_body_valid: "validate_resource example_body"
  by (simp add: validate_resource_def example_body_def required_def maxLength_def enum_def)

lemma ledger_resource:
  "find (\<lambda>r. r_id r = 1 \<and> r_time_entry_id r = 1) (resources ledger_store) = Some example_resource"
  by (simp add: ledger_store_def example_resource_def)

text \<open>The theorem at an entry that is attached to an invoice.\<close>

theorem resources_ignore_lock_witness:
  "find_entry ledger_store 1 = Some locked_entry \<and> te_invoiced locked_entry \<and>
   fresh_keys ledger_store \<and> validate_resource example_body \<and>
   (\<exists>row. post_resource ledger_store 1 example_body =
            (ledger_store\<lparr>resources := resources ledger_store @ [row],
                          resources_id_seq := resources_id_seq ledger_store + 1\<rparr>,
             Ok 201 row, [TimeEntryUpdated [(''id'', Num (of_nat 1))] (te_client_id locked_entry)]) \<and>
           r_time_entry_id row = 1 \<and> rb_type example_body = Some (r_type row) \<and>
           rb_name example_body = Some (r_name row) \<and> rb_url example_body = Some (r_url row)) \<and>
   find (\<lambda>r. r_id r = 1 \<and> r_time_entry_id r = 1) (resources ledger_store) = Some example_resource \<and>
   delete_resource ledger_store 1 1 =
     (ledger_store\<lparr>resources := filter (\<lambda>r. r_id r \<noteq> 1) (resources ledger_store)\<rparr>,
      Ok 200 (), [TimeEntryUpdated [(''id'', Num (of_nat 1))] (te_client_id locked_entry)])"
proof -
  note R = resources_ignore_lock [OF ledger_entries(1) ledger_fresh, of example_body 1]
  note A = R [THEN conjunct1, THEN mp, OF example_body_valid]
  note D = R [THEN conjunct2, THEN spec, THEN mp, OF ledger_resource]
  show ?thesis
    using ledger_entries(1) ledger_entries(3) ledger_fresh example_body_valid ledger_resource A D
    by (intro conjI)
qed

section \<open>The registry and what the broadcaster sends\<close>

subsection \<open>What the broadcast functions send\<close>

lemma broadcastToAllUsers_staff:
  "broadcastToAllUsers reg m = to_staff reg (stringify m)"
proof -
  have "concat (map (\<lambda>(key, clientSet).
                       if is_user_key key
                       then map (\<lambda>w. (w, stringify m)) (filter (is_open reg) clientSet)
                       else []) al)
        = map (\<lambda>w. (w, stringify m))
            (filter (is_open reg)
               (concat (map snd (filter (\<lambda>(key, clientSet). is_user_key key) al))))" for al
    by (induction al) auto
  then show ?thesis
    by (simp add: broadcastToAllUsers_def to_staff_def staff_sockets_def)
qed

lemma broadcastToClient_subscribers:
  "broadcastToClient reg cid m = to_subscribers reg cid (stringify m)"
  by (simp add: broadcastToClient_def to_subscribers_def)

lemma stringify_redacted:
  "stringify_object (set_key entry k Undefined) = stringify_object (without_key k entry)"
proof -
  have 1: "filter (\<lambda>(k', v). v \<noteq> Undefined)
             (map (\<lambda>(k', v'). if k' = k then (k', Undefined) else (k', v')) obj)
           = filter (\<lambda>(k', v). v \<noteq> Undefined) (filter (\<lambda>(k', v). k' \<noteq> k) obj)" for obj
    by (induction obj) auto
  have 2: "k \<notin> set (map fst obj) \<Longrightarrow> filter (\<lambda>(k', v). k' \<noteq> k) obj = obj" for obj
    by (induction obj) auto
  show ?thesis
  proof (cases "k \<in> set (map fst entry)")
    case True
    then show ?thesis
      by (simp add: set_key_def stringify_object_def without_key_def 1)
  next
    case False
    have "without_key k entry = entry"
      using 2 [OF False] by (simp add: without_key_def)
    then show ?thesis
      using False by (simp add: set_key_def stringify_object_def)
  qed
qed

lemma redacted_has_no_key:
  "k \<notin> set (map fst (stringify_object (without_key k entry)))"
  by (auto simp: stringify_object_def without_key_def)

lemma stringify_keeps_defined:
  assumes "map_of entry k = Some v" "v \<noteq> Undefined"
  shows "map_of (stringify_object entry) k = Some v"
  using assms unfolding stringify_object_def
  by (induction entry) (auto split: if_splits)

subsection \<open>Sockets under a user key are staff sockets\<close>

lemma staff_sockets_update:
  "set (concat (map snd (filter (\<lambda>(key, clientSet). is_user_key key) (AList.update k v al))))
     \<subseteq> set v \<union> set (concat (map snd (filter (\<lambda>(key, clientSet). is_user_key key) al)))"
  by (induction al) auto

lemma staff_sockets_delete:
  "set (concat (map snd (filter (\<lambda>(key, clientSet). is_user_key key) (AList.delete k al))))
     \<subseteq> set (concat (map snd (filter (\<lambda>(key, clientSet). is_user_key key) al)))"
  by (induction al) auto

lemma staff_sockets_lookup:
  assumes "map_of al k = Some v" "is_user_key k"
  shows "set v \<subseteq> set (concat (map snd (filter (\<lambda>(key, clientSet). is_user_key key) al)))"
  using assms by (induction al) (auto split: if_splits)

lemma staff_after_connection:
  assumes "staff_under_user_keys reg"
  shows "staff_under_user_keys (fst (on_connection reg wid found))"
proof (cases found)
  case None
  then show ?thesis using assms by (simp add: on_connection_def)
next
  case (Some session)
  show ?thesis
  proof (cases session)
    case (UserSession uid name)
    let ?w = "\<lparr>ws_id = wid, userId = Some uid, clientId = None, userType = User\<rparr>"
    have old: "\<forall>x \<in> set (get_set (ws_clients reg) (UserKey uid)). userType x = User"
    proof (cases "map_of (ws_clients reg) (UserKey uid)")
      case None
      then show ?thesis by (simp add: get_set_def)
    next
      case (Some v)
      have "is_user_key (UserKey uid)" by (simp add: is_user_key_def)
      from staff_sockets_lookup [OF Some this]
      have "set v \<subseteq> set (staff_sockets reg)" by (simp add: staff_sockets_def)
      then show ?thesis
        using assms Some by (auto simp: get_set_def staff_under_user_keys_def list_all_iff)
    qed
    have new: "\<forall>x \<in> set (set_add ?w (get_set (ws_clients reg) (UserKey uid))). userType x = User"
      using old by (auto simp: set_add_def)
    have A: "ws_clients (fst (on_connection reg wid found))
               = AList.update (UserKey uid) (set_add ?w (get_set (ws_clients reg) (UserKey uid)))
                   (ws_clients reg)"
      by (simp add: on_connection_def Some UserSession Let_def)
    have "set (staff_sockets (fst (on_connection reg wid found)))
            \<subseteq> set (set_add ?w (get_set (ws_clients reg) (UserKey uid))) \<union> set (staff_sockets reg)"
      unfolding staff_sockets_def A by (rule staff_sockets_update)
    then show ?thesis
      using new assms unfolding staff_under_user_keys_def list_all_iff by blast
  next
    case (ClientSession cid name)
    let ?w = "\<lparr>ws_id = wid, userId = None, clientId = Some cid, userType = Client\<rparr>"
    have B: "set (concat (map snd (filter (\<lambda>(key, clientSet). is_user_key key)
                 (AList.update (ClientKey cid) v al))))
          = set (concat (map snd (filter (\<lambda>(key, clientSet). is_user_key key) al)))" for v al
      by (induction al) (auto simp: is_user_key_def)
    have A: "ws_clients (fst (on_connection reg wid found))
               = AList.update (ClientKey cid) (set_add ?w (get_set (ws_clients reg) (ClientKey cid)))
                   (ws_clients reg)"
      by (simp add: on_connection_def Some ClientSession Let_def)
    have "set (staff_sockets (fst (on_connection reg wid found))) = set (staff_sockets reg)"
      unfolding staff_sockets_def A by (rule B)
    then show ?thesis
      using assms unfolding staff_under_user_keys_def list_all_iff by simp
  qed
qed

lemma staff_after_message:
  assumes "staff_under_user_keys reg"
  shows "staff_under_user_keys (fst (handleMessage reg w m))"
  using assms
  by (cases m) (auto simp: staff_under_user_keys_def staff_sockets_def split: option.splits)

lemma staff_sockets_remove:
  "set (concat (map snd (filter (\<lambda>(key, clientSet). is_user_key key) (remove_from al k w))))
     \<subseteq> set (concat (map snd (filter (\<lambda>(key, clientSet). is_user_key key) al)))"
proof (cases "map_of al k")
  case None
  then show ?thesis by (simp add: remove_from_def)
next
  case (Some members)
  show ?thesis
  proof (cases "is_user_key k")
    case True
    from staff_sockets_lookup [OF Some True]
    have "set (removeAll w members)
            \<subseteq> set (concat (map snd (filter (\<lambda>(key, clientSet). is_user_key key) al)))"
      by auto
    then show ?thesis
      using Some staff_sockets_update [of k "removeAll w members" al] staff_sockets_delete [of k al]
      by (auto simp: remove_from_def Let_def)
  next
    case False
    have "set (concat (map snd (filter (\<lambda>(key, clientSet). is_user_key key) (AList.update k v al))))
          = set (concat (map snd (filter (\<lambda>(key, clientSet). is_user_key key) al)))" for v
      using False by (induction al) auto
    then show ?thesis
      using Some staff_sockets_delete [of k al]
      by (auto simp: remove_from_def Let_def)
  qed
qed

lemma staff_after_close:
  assumes "staff_under_user_keys reg"
  shows "staff_under_user_keys (on_close reg w)"
proof -
  have "set (staff_sockets (on_close reg w)) \<subseteq> set (staff_sockets reg)"
    using staff_sockets_remove [of "ws_clients reg" _ w]
    by (auto simp: on_close_def staff_sockets_def Let_def split: option.splits)
  then show ?thesis
    using assms by (auto simp: staff_under_user_keys_def list_all_iff)
qed

lemma staff_after_step:
  assumes "staff_under_user_keys reg"
  shows "staff_under_user_keys (ws_step reg ev)"
  using assms
  by (cases ev) (simp_all add: staff_after_connection staff_after_message staff_after_close)

lemma staff_invariant: "staff_under_user_keys (ws_run evs)"
proof -
  have "staff_under_user_keys reg \<Longrightarrow> staff_under_user_keys (foldl ws_step reg evs)" for reg
    by (induction evs arbitrary: reg) (simp_all add: staff_after_step)
  moreover have "staff_under_user_keys no_connections"
    by (simp add: staff_under_user_keys_def staff_sockets_def no_connections_def)
  ultimately show ?thesis by (simp add: ws_run_def)
qed

lemma to_clients_staff:
  assumes "staff_under_user_keys reg"
  shows "to_clients (to_staff reg m) = []"
  using assms
  by (auto simp: to_clients_def to_staff_def staff_under_user_keys_def list_all_iff
      filter_empty_conv)

lemma entry_event_sends:
  "broadcastToAllUsers reg \<lparr>msg_type = t, msg_data = EntryData entry\<rparr> @
   broadcastToClient reg cid
     \<lparr>msg_type = t, msg_data = EntryData (set_key entry ''internal_notes'' Undefined)\<rparr>
   = to_staff reg \<lparr>msg_type = t, msg_data = EntryData (stringify_object entry)\<rparr> @
     to_subscribers reg cid
       \<lparr>msg_type = t,
        msg_data = EntryData (stringify_object (without_key ''internal_notes'' entry))\<rparr>"
  by (simp add: broadcastToAllUsers_staff broadcastToClient_subscribers stringify_def
      stringify_redacted)

lemma events_sends:
  "events reg (TimeEntryCreated entry cid) =
     to_staff reg \<lparr>msg_type = ''time_entry:created'', msg_data = EntryData (stringify_object entry)\<rparr> @
     to_subscribers reg cid
       \<lparr>msg_type = ''time_entry:created'',
        msg_data = EntryData (stringify_object (without_key ''internal_notes'' entry))\<rparr>"
  "events reg (TimeEntryUpdated entry cid) =
     to_staff reg \<lparr>msg_type = ''time_entry:updated'', msg_data = EntryData (stringify_object entry)\<rparr> @
     to_subscribers reg cid
       \<lparr>msg_type = ''time_entry:updated'',
        msg_data = EntryData (stringify_object (without_key ''internal_notes'' entry))\<rparr>"
  "events reg (TimeEntryDeleted entryId cid) =
     to_staff reg \<lparr>msg_type = ''time_entry:deleted'', msg_data = EntryId entryId\<rparr> @
     to_subscribers reg cid \<lparr>msg_type = ''time_entry:deleted'', msg_data = EntryId entryId\<rparr>"
  "events reg (InvoiceCreated invoice) =
     to_staff reg \<lparr>msg_type = ''invoice:created'', msg_data = InvoiceData invoice\<rparr>"
  "events reg (InvoiceUpdated invoice) =
     to_staff reg \<lparr>msg_type = ''invoice:updated'', msg_data = InvoiceData invoice\<rparr> @
     (if status invoice = Sent
      then to_subscribers reg (inv_client_id invoice)
             \<lparr>msg_type = ''invoice:sent'',
              msg_data = InvoiceRef (inv_id invoice) (invoice_number invoice)\<rparr>
      else [])"
  by (simp_all add: entry_event_sends)
     (simp_all add: broadcastToAllUsers_staff broadcastToClient_subscribers stringify_def)

section \<open>Redaction of the internal annotation\<close>

lemma client_deliveries:
  assumes "staff_under_user_keys reg" "(w, m) \<in> set (events reg call)" "userType w = Client"
  shows "\<not> carries_internal_notes m"
proof -
  have staff: "(w, m) \<notin> set (to_staff reg m')" for m'
    using assms(1,3)
    by (auto simp: to_staff_def staff_under_user_keys_def list_all_iff)
  show ?thesis
  proof (cases call)
    case (TimeEntryCreated entry cid)
    then show ?thesis
      using assms(2) staff redacted_has_no_key [of "''internal_notes''" entry]
      by (auto simp: events_sends to_subscribers_def carries_internal_notes_def
          simp del: events.simps)
  next
    case (TimeEntryUpdated entry cid)
    then show ?thesis
      using assms(2) staff redacted_has_no_key [of "''internal_notes''" entry]
      by (auto simp: events_sends to_subscribers_def carries_internal_notes_def
          simp del: events.simps)
  next
    case (TimeEntryDeleted entryId cid)
    then show ?thesis
      using assms(2) staff
      by (auto simp: events_sends to_subscribers_def carries_internal_notes_def
          simp del: events.simps)
  next
    case (InvoiceCreated invoice)
    then show ?thesis
      using assms(2) staff by (auto simp: events_sends simp del: events.simps)
  next
    case (InvoiceUpdated invoice)
    then show ?thesis
      using assms(2) staff
      by (auto simp: events_sends to_subscribers_def carries_internal_notes_def
          simp del: events.simps split: if_splits)
  qed
qed

lemma to_clients_append: "to_clients (xs @ ys) = to_clients xs @ to_clients ys"
  by (simp add: to_clients_def)

lemma client_view_independent:
  assumes "staff_under_user_keys reg"
    and "without_key ''internal_notes'' e1 = without_key ''internal_notes'' e2"
  shows "to_clients (events reg (TimeEntryCreated e1 cid)) =
           to_clients (events reg (TimeEntryCreated e2 cid))"
    and "to_clients (events reg (TimeEntryUpdated e1 cid)) =
           to_clients (events reg (TimeEntryUpdated e2 cid))"
  using assms by (simp_all add: events_sends to_clients_append to_clients_staff del: events.simps)

lemma staff_deliveries:
  assumes "w \<in> set (staff_sockets reg)" "is_open reg w"
  shows "(w, \<lparr>msg_type = ''time_entry:created'', msg_data = EntryData (stringify_object entry)\<rparr>)
           \<in> set (events reg (TimeEntryCreated entry cid))"
    and "(w, \<lparr>msg_type = ''time_entry:updated'', msg_data = EntryData (stringify_object entry)\<rparr>)
           \<in> set (events reg (TimeEntryUpdated entry cid))"
  using assms by (auto simp: events_sends to_staff_def simp del: events.simps)

text \<open>
  Claim C3. In every registry that connections, messages and disconnections can
  produce, and for every call into the broadcaster: no message delivered to a socket
  of a client session carries the key \<^verbatim>\<open>internal_notes\<close> (the key is absent, not
  null); two entries that differ only in that key are delivered to client sockets as
  the same messages; and every open staff socket is sent the entry with
  \<^verbatim>\<open>internal_notes\<close> as the entry has it.
\<close>

theorem client_payload_redacted:
  "(\<forall>(w, m) \<in> set (events (ws_run evs) call). userType w = Client \<longrightarrow> \<not> carries_internal_notes m) \<and>
   (without_key ''internal_notes'' e1 = without_key ''internal_notes'' e2 \<longrightarrow>
      to_clients (events (ws_run evs) (TimeEntryCreated e1 cid)) =
        to_clients (events (ws_run evs) (TimeEntryCreated e2 cid)) \<and>
      to_clients (events (ws_run evs) (TimeEntryUpdated e1 cid)) =
        to_clients (events (ws_run evs) (TimeEntryUpdated e2 cid))) \<and>
   (\<forall>w \<in> set (staff_sockets (ws_run evs)). is_open (ws_run evs) w \<longrightarrow>
      (w, \<lparr>msg_type = ''time_entry:created'', msg_data = EntryData (stringify_object entry)\<rparr>)
        \<in> set (events (ws_run evs) (TimeEntryCreated entry cid)) \<and>
      (w, \<lparr>msg_type = ''time_entry:updated'', msg_data = EntryData (stringify_object entry)\<rparr>)
        \<in> set (events (ws_run evs) (TimeEntryUpdated entry cid))) \<and>
   (\<forall>v. map_of entry ''internal_notes'' = Some v \<and> v \<noteq> Undefined \<longrightarrow>
      map_of (stringify_object entry) ''internal_notes'' = Some v)"
proof (intro conjI)
  show "\<forall>(w, m) \<in> set (events (ws_run evs) call). userType w = Client \<longrightarrow> \<not> carries_internal_notes m"
    using client_deliveries [OF staff_invariant] by blast
  show "without_key ''internal_notes'' e1 = without_key ''internal_notes'' e2 \<longrightarrow>
      to_clients (events (ws_run evs) (TimeEntryCreated e1 cid)) =
        to_clients (events (ws_run evs) (TimeEntryCreated e2 cid)) \<and>
      to_clients (events (ws_run evs) (TimeEntryUpdated e1 cid)) =
        to_clients (events (ws_run evs) (TimeEntryUpdated e2 cid))"
    using client_view_independent [OF staff_invariant] by blast
  show "\<forall>w \<in> set (staff_sockets (ws_run evs)). is_open (ws_run evs) w \<longrightarrow>
      (w, \<lparr>msg_type = ''time_entry:created'', msg_data = EntryData (stringify_object entry)\<rparr>)
        \<in> set (events (ws_run evs) (TimeEntryCreated entry cid)) \<and>
      (w, \<lparr>msg_type = ''time_entry:updated'', msg_data = EntryData (stringify_object entry)\<rparr>)
        \<in> set (events (ws_run evs) (TimeEntryUpdated entry cid))"
    using staff_deliveries by blast
  show "\<forall>v. map_of entry ''internal_notes'' = Some v \<and> v \<noteq> Undefined \<longrightarrow>
      map_of (stringify_object entry) ''internal_notes'' = Some v"
    using stringify_keeps_defined by blast
qed

lemma example_created:
  "events (ws_run example_connections) (TimeEntryCreated example_entry 7) =
     [(staff_ws, \<lparr>msg_type = ''time_entry:created'', msg_data = EntryData example_entry\<rparr>),
      (client_ws, redacted_message)]"
  by code_simp

lemma example_staff:
  "staff_ws \<in> set (staff_sockets (ws_run example_connections))"
  "is_open (ws_run example_connections) staff_ws"
  "userType client_ws = Client"
  "map_of example_entry ''internal_notes'' = Some (Str ''discount agreed, do not disclose'')"
  by code_simp+

text \<open>The theorem with one staff socket and one socket of client 7 connected, for an
  entry that carries an annotation.\<close>

theorem client_payload_redacted_witness:
  "(client_ws, redacted_message)
     \<in> set (events (ws_run example_connections) (TimeEntryCreated example_entry 7)) \<and>
   userType client_ws = Client \<and>
   \<not> carries_internal_notes redacted_message \<and>
   staff_ws \<in> set (staff_sockets (ws_run example_connections)) \<and>
   is_open (ws_run example_connections) staff_ws \<and>
   (staff_ws, \<lparr>msg_type = ''time_entry:created'',
               msg_data = EntryData (stringify_object example_entry)\<rparr>)
     \<in> set (events (ws_run example_connections) (TimeEntryCreated example_entry 7)) \<and>
   map_of (stringify_object example_entry) ''internal_notes''
     = Some (Str ''discount agreed, do not disclose'')"
proof -
  note T = client_payload_redacted [where evs = example_connections
      and call = "TimeEntryCreated example_entry 7" and entry = example_entry and cid = 7
      and ?e1.0 = example_entry and ?e2.0 = example_entry]
  have mem: "(client_ws, redacted_message)
     \<in> set (events (ws_run example_connections) (TimeEntryCreated example_entry 7))"
    unfolding example_created by simp
  have 1: "\<not> carries_internal_notes redacted_message"
    using T [THEN conjunct1] mem example_staff(3) by blast
  have 2: "(staff_ws, \<lparr>msg_type = ''time_entry:created'',
               msg_data = EntryData (stringify_object example_entry)\<rparr>)
     \<in> set (events (ws_run example_connections) (TimeEntryCreated example_entry 7))"
    using T [THEN conjunct2, THEN conjunct2, THEN conjunct1] example_staff(1,2) by blast
  have 3: "map_of (stringify_object example_entry) ''internal_notes''
     = Some (Str ''discount agreed, do not disclose'')"
    using T [THEN conjunct2, THEN conjunct2, THEN conjunct2] example_staff(4) by blast
  show ?thesis
    using mem example_staff(1,2,3) 1 2 3 by (intro conjI)
qed

section \<open>Who is sent what\<close>

theorem invoice_created_not_sent_to_client:
  "inv_client_id client_invoice = 7 \<and>
   client_ws \<in> set (get_set (clientSubscriptions (ws_run example_connections)) 7) \<and>
   is_open (ws_run example_connections) client_ws \<and>
   events (ws_run example_connections) (InvoiceCreated client_invoice) =
     [(staff_ws, \<lparr>msg_type = ''invoice:created'', msg_data = InvoiceData client_invoice\<rparr>)] \<and>
   events (ws_run example_connections) (InvoiceUpdated (client_invoice\<lparr>status := Paid\<rparr>)) =
     [(staff_ws, \<lparr>msg_type = ''invoice:updated'',
                  msg_data = InvoiceData (client_invoice\<lparr>status := Paid\<rparr>)\<rparr>)]"
  by code_simp

text \<open>
  Claim C4, amended. The three time entry events are published in two steps: the entry
  as it is to every open staff socket, then to every open socket subscribed to the
  entry's client the entry without \<^verbatim>\<open>internal_notes\<close> (a deletion carries the id alone
  in both steps). \<^verbatim>\<open>invoiceCreated\<close> is published to the staff sockets only.
  \<^verbatim>\<open>invoiceUpdated\<close> is published to the staff sockets and, only when the status is
  sent, a notice \<^verbatim>\<open>invoice:sent\<close> with the id and the number goes to the sockets
  subscribed to the invoice's client.
\<close>

theorem events_publish:
  "events reg (TimeEntryCreated entry cid) =
     to_staff reg \<lparr>msg_type = ''time_entry:created'', msg_data = EntryData (stringify_object entry)\<rparr> @
     to_subscribers reg cid
       \<lparr>msg_type = ''time_entry:created'',
        msg_data = EntryData (stringify_object (without_key ''internal_notes'' entry))\<rparr> \<and>
   events reg (TimeEntryUpdated entry cid) =
     to_staff reg \<lparr>msg_type = ''time_entry:updated'', msg_data = EntryData (stringify_object entry)\<rparr> @
     to_subscribers reg cid
       \<lparr>msg_type = ''time_entry:updated'',
        msg_data = EntryData (stringify_object (without_key ''internal_notes'' entry))\<rparr> \<and>
   events reg (TimeEntryDeleted entryId cid) =
     to_staff reg \<lparr>msg_type = ''time_entry:deleted'', msg_data = EntryId entryId\<rparr> @
     to_subscribers reg cid \<lparr>msg_type = ''time_entry:deleted'', msg_data = EntryId entryId\<rparr> \<and>
   events reg (InvoiceCreated invoice) =
     to_staff reg \<lparr>msg_type = ''invoice:created'', msg_data = InvoiceData invoice\<rparr> \<and>
   events reg (InvoiceUpdated invoice) =
     to_staff reg \<lparr>msg_type = ''invoice:updated'', msg_data = InvoiceData invoice\<rparr> @
     (if status invoice = Sent
      then to_subscribers reg (inv_client_id invoice)
             \<lparr>msg_type = ''invoice:sent'',
              msg_data = InvoiceRef (inv_id invoice) (invoice_number invoice)\<rparr>
      else [])"
  by (intro conjI) (rule events_sends)+

section \<open>Disconnection\<close>

theorem staff_subscription_survives_close:
  "ws_run subscribe_then_leave =
     \<lparr>ws_clients = [], clientSubscriptions = [(7, [staff_ws])], open_sockets = []\<rparr> \<and>
   staff_ws \<in> set (get_set (clientSubscriptions (ws_run subscribe_then_leave)) 7)"
  by code_simp

text \<open>A socket that has closed is sent nothing by any later call, whatever sets it is
  still in: every send is guarded by the \<^verbatim>\<open>readyState\<close>.\<close>

lemma closed_socket_receives_nothing:
  "w \<notin> fst ` set (events (on_close reg w) call)"
proof -
  have "\<not> is_open (on_close reg w) w"
    by (simp add: is_open_def on_close_def Let_def)
  then have "(w, b) \<notin> set (to_staff (on_close reg w) m)"
    and "(w, b) \<notin> set (to_subscribers (on_close reg w) cid m)" for b m cid
    by (auto simp: to_staff_def to_subscribers_def)
  then show ?thesis
    by (cases call) (auto simp: events_sends simp del: events.simps split: if_splits)
qed

section \<open>Evaluating the handlers at a store\<close>

text \<open>The equations that a closed evaluation unfolds.\<close>

lemma replicate_small:
  "replicate 2 c = [c, c]" "replicate 3 c = [c, c, c]" "replicate 4 c = [c, c, c, c]"
  by (simp_all add: numeral_2_eq_2 numeral_3_eq_3 eval_nat_numeral)

lemmas number_defs =
  next_invoice_number_def last_invoice_number_def greatest_def starts_with_def
  nat_to_string.simps digit_char_def parseInt_def second_def is_digit_def number_to_string_def
  padStart_def replicate_small

lemmas insert_defs =
  insert_invoice_def insert_invoice_item_def to_decimal_def round_half_away_def find_invoice_def
  mark_invoiced_def entries_sum_def effective_rate_def or_null_def parseFloat_def Let_def
  floor_rat_numeral


section \<open>The ten thousandth invoice of a year\<close>

subsection \<open>The doubles of the two examples\<close>

lemma fl_1: "fl 1 = Finite 1"
  by (rule fl_is [where e = 0 and m = 4503599627370496]) simp_all

lemma fl_250: "fl 250 = Finite 250"
  by (rule fl_is [where e = 7 and m = 8796093022208000]) simp_all

lemma fl_10: "fl 10 = Finite 10"
  by (rule fl_is [where e = 3 and m = 5629499534213120]) simp_all

lemma fl_0_1: "fl (1 / 10) = Finite (3602879701896397 / 36028797018963968)"
  by (rule fl_is [where e = "- 4" and m = 7205759403792794]) simp_all

lemma fl_near_25: "fl (450359962737049625 / 18014398509481984) = Finite 25"
  by (rule fl_is [where e = 4 and m = 7036874417766400]) simp_all

lemma fl_275: "fl 275 = Finite 275"
  by (rule fl_is [where e = 8 and m = 4837851162214400]) simp_all

lemma shortest_250: "shortest_decimal 250 = 250"
proof (rule shortest_decimal_is [where k = 2])
  have e: "exponent 10 250 = 2"
    by (rule exponent_eqI) simp_all
  have c: "decimal_below 2 250 = 250" "decimal_above 2 250 = 260"
    by (simp_all add: decimal_below_def decimal_above_def unit_at_def e floor_rat_numeral)
  have lo: "fl 250 = Finite 250"
    by (rule fl_is [where e = 7 and m = 8796093022208000]) simp_all
  have hi: "fl 260 = Finite 260"
    by (rule fl_is [where e = 8 and m = 4573968371548160]) simp_all
  show "digits 2 250 = Some 250"
    unfolding digits_def c lo hi by simp
  have c1: "decimal_below (2 - 1) 250 = 200" "decimal_above (2 - 1) 250 = 300"
    by (simp_all add: decimal_below_def decimal_above_def unit_at_def e floor_rat_numeral)
  have lo1: "fl 200 = Finite 200"
    by (rule fl_is [where e = 7 and m = 7036874417766400]) simp_all
  have hi1: "fl 300 = Finite 300"
    by (rule fl_is [where e = 8 and m = 5277655813324800]) simp_all
  show "fl (decimal_below (2 - 1) 250) \<noteq> Finite 250"
    unfolding c1 lo1 by simp
  show "fl (decimal_above (2 - 1) 250) \<noteq> Finite 250"
    unfolding c1 hi1 by simp
  show "fl 250 = Finite 250"
    by (rule fl_is [where e = 7 and m = 8796093022208000]) simp_all
qed simp_all

lemma shortest_10: "shortest_decimal 10 = 10"
proof (rule shortest_decimal_is [where k = 1])
  have e: "exponent 10 10 = 1"
    by (rule exponent_eqI) simp_all
  have c: "decimal_below 1 10 = 10" "decimal_above 1 10 = 20"
    by (simp_all add: decimal_below_def decimal_above_def unit_at_def e floor_rat_numeral)
  have lo: "fl 10 = Finite 10"
    by (rule fl_is [where e = 3 and m = 5629499534213120]) simp_all
  have hi: "fl 20 = Finite 20"
    by (rule fl_is [where e = 4 and m = 5629499534213120]) simp_all
  show "digits 1 10 = Some 10"
    unfolding digits_def c lo hi by simp
  show "fl 10 = Finite 10"
    by (rule fl_is [where e = 3 and m = 5629499534213120]) simp_all
qed simp_all

lemma shortest_25: "shortest_decimal 25 = 25"
proof (rule shortest_decimal_is [where k = 2])
  have e: "exponent 10 25 = 1"
    by (rule exponent_eqI) simp_all
  have c: "decimal_below 2 25 = 25" "decimal_above 2 25 = 26"
    by (simp_all add: decimal_below_def decimal_above_def unit_at_def e floor_rat_numeral)
  have lo: "fl 25 = Finite 25"
    by (rule fl_is [where e = 4 and m = 7036874417766400]) simp_all
  have hi: "fl 26 = Finite 26"
    by (rule fl_is [where e = 4 and m = 7318349394477056]) simp_all
  show "digits 2 25 = Some 25"
    unfolding digits_def c lo hi by simp
  have c1: "decimal_below (2 - 1) 25 = 20" "decimal_above (2 - 1) 25 = 30"
    by (simp_all add: decimal_below_def decimal_above_def unit_at_def e floor_rat_numeral)
  have lo1: "fl 20 = Finite 20"
    by (rule fl_is [where e = 4 and m = 5629499534213120]) simp_all
  have hi1: "fl 30 = Finite 30"
    by (rule fl_is [where e = 4 and m = 8444249301319680]) simp_all
  show "fl (decimal_below (2 - 1) 25) \<noteq> Finite 25"
    unfolding c1 lo1 by simp
  show "fl (decimal_above (2 - 1) 25) \<noteq> Finite 25"
    unfolding c1 hi1 by simp
  show "fl 25 = Finite 25"
    by (rule fl_is [where e = 4 and m = 7036874417766400]) simp_all
qed simp_all

lemma shortest_275: "shortest_decimal 275 = 275"
proof (rule shortest_decimal_is [where k = 3])
  have e: "exponent 10 275 = 2"
    by (rule exponent_eqI) simp_all
  have c: "decimal_below 3 275 = 275" "decimal_above 3 275 = 276"
    by (simp_all add: decimal_below_def decimal_above_def unit_at_def e floor_rat_numeral)
  have lo: "fl 275 = Finite 275"
    by (rule fl_is [where e = 8 and m = 4837851162214400]) simp_all
  have hi: "fl 276 = Finite 276"
    by (rule fl_is [where e = 8 and m = 4855443348258816]) simp_all
  show "digits 3 275 = Some 275"
    unfolding digits_def c lo hi by simp
  have c1: "decimal_below (3 - 1) 275 = 270" "decimal_above (3 - 1) 275 = 280"
    by (simp_all add: decimal_below_def decimal_above_def unit_at_def e floor_rat_numeral)
  have lo1: "fl 270 = Finite 270"
    by (rule fl_is [where e = 8 and m = 4749890231992320]) simp_all
  have hi1: "fl 280 = Finite 280"
    by (rule fl_is [where e = 8 and m = 4925812092436480]) simp_all
  show "fl (decimal_below (3 - 1) 275) \<noteq> Finite 275"
    unfolding c1 lo1 by simp
  show "fl (decimal_above (3 - 1) 275) \<noteq> Finite 275"
    unfolding c1 hi1 by simp
  show "fl 275 = Finite 275"
    by (rule fl_is [where e = 8 and m = 4837851162214400]) simp_all
qed simp_all

lemma shortest_1: "shortest_decimal 1 = 1"
proof (rule shortest_decimal_is [where k = 1])
  have e: "exponent 10 1 = 0"
    by (rule exponent_eqI) simp_all
  have c: "decimal_below 1 1 = 1" "decimal_above 1 1 = 2"
    by (simp_all add: decimal_below_def decimal_above_def unit_at_def e floor_rat_numeral)
  have lo: "fl 1 = Finite 1"
    by (rule fl_is [where e = 0 and m = 4503599627370496]) simp_all
  have hi: "fl 2 = Finite 2"
    by (rule fl_is [where e = 1 and m = 4503599627370496]) simp_all
  show "digits 1 1 = Some 1"
    unfolding digits_def c lo hi by simp
  show "fl 1 = Finite 1"
    by (rule fl_is [where e = 0 and m = 4503599627370496]) simp_all
qed simp_all

lemma fl_350: "fl 350 = Finite 350"
  by (rule fl_is [where e = 8 and m = 6157265115545600]) simp_all

lemma fl_near_35: "fl (630503947831869475 / 18014398509481984) = Finite 35"
  by (rule fl_is [where e = 5 and m = 4925812092436480]) simp_all

lemma fl_385: "fl 385 = Finite 385"
  by (rule fl_is [where e = 8 and m = 6772991627100160]) simp_all

lemma shortest_350: "shortest_decimal 350 = 350"
proof (rule shortest_decimal_is [where k = 2])
  have e: "exponent 10 350 = 2"
    by (rule exponent_eqI) simp_all
  have c: "decimal_below 2 350 = 350" "decimal_above 2 350 = 360"
    by (simp_all add: decimal_below_def decimal_above_def unit_at_def e floor_rat_numeral)
  have lo: "fl 350 = Finite 350"
    by (rule fl_is [where e = 8 and m = 6157265115545600]) simp_all
  have hi: "fl 360 = Finite 360"
    by (rule fl_is [where e = 8 and m = 6333186975989760]) simp_all
  show "digits 2 350 = Some 350"
    unfolding digits_def c lo hi by simp
  have c1: "decimal_below (2 - 1) 350 = 300" "decimal_above (2 - 1) 350 = 400"
    by (simp_all add: decimal_below_def decimal_above_def unit_at_def e floor_rat_numeral)
  have lo1: "fl 300 = Finite 300"
    by (rule fl_is [where e = 8 and m = 5277655813324800]) simp_all
  have hi1: "fl 400 = Finite 400"
    by (rule fl_is [where e = 8 and m = 7036874417766400]) simp_all
  show "fl (decimal_below (2 - 1) 350) \<noteq> Finite 350"
    unfolding c1 lo1 by simp
  show "fl (decimal_above (2 - 1) 350) \<noteq> Finite 350"
    unfolding c1 hi1 by simp
  show "fl 350 = Finite 350"
    by (rule fl_is [where e = 8 and m = 6157265115545600]) simp_all
qed simp_all

lemma shortest_35: "shortest_decimal 35 = 35"
proof (rule shortest_decimal_is [where k = 2])
  have e: "exponent 10 35 = 1"
    by (rule exponent_eqI) simp_all
  have c: "decimal_below 2 35 = 35" "decimal_above 2 35 = 36"
    by (simp_all add: decimal_below_def decimal_above_def unit_at_def e floor_rat_numeral)
  have lo: "fl 35 = Finite 35"
    by (rule fl_is [where e = 5 and m = 4925812092436480]) simp_all
  have hi: "fl 36 = Finite 36"
    by (rule fl_is [where e = 5 and m = 5066549580791808]) simp_all
  show "digits 2 35 = Some 35"
    unfolding digits_def c lo hi by simp
  have c1: "decimal_below (2 - 1) 35 = 30" "decimal_above (2 - 1) 35 = 40"
    by (simp_all add: decimal_below_def decimal_above_def unit_at_def e floor_rat_numeral)
  have lo1: "fl 30 = Finite 30"
    by (rule fl_is [where e = 4 and m = 8444249301319680]) simp_all
  have hi1: "fl 40 = Finite 40"
    by (rule fl_is [where e = 5 and m = 5629499534213120]) simp_all
  show "fl (decimal_below (2 - 1) 35) \<noteq> Finite 35"
    unfolding c1 lo1 by simp
  show "fl (decimal_above (2 - 1) 35) \<noteq> Finite 35"
    unfolding c1 hi1 by simp
  show "fl 35 = Finite 35"
    by (rule fl_is [where e = 5 and m = 4925812092436480]) simp_all
qed simp_all

lemma shortest_385: "shortest_decimal 385 = 385"
proof (rule shortest_decimal_is [where k = 3])
  have e: "exponent 10 385 = 2"
    by (rule exponent_eqI) simp_all
  have c: "decimal_below 3 385 = 385" "decimal_above 3 385 = 386"
    by (simp_all add: decimal_below_def decimal_above_def unit_at_def e floor_rat_numeral)
  have lo: "fl 385 = Finite 385"
    by (rule fl_is [where e = 8 and m = 6772991627100160]) simp_all
  have hi: "fl 386 = Finite 386"
    by (rule fl_is [where e = 8 and m = 6790583813144576]) simp_all
  show "digits 3 385 = Some 385"
    unfolding digits_def c lo hi by simp
  have c1: "decimal_below (3 - 1) 385 = 380" "decimal_above (3 - 1) 385 = 390"
    by (simp_all add: decimal_below_def decimal_above_def unit_at_def e floor_rat_numeral)
  have lo1: "fl 380 = Finite 380"
    by (rule fl_is [where e = 8 and m = 6685030696878080]) simp_all
  have hi1: "fl 390 = Finite 390"
    by (rule fl_is [where e = 8 and m = 6860952557322240]) simp_all
  show "fl (decimal_below (3 - 1) 385) \<noteq> Finite 385"
    unfolding c1 lo1 by simp
  show "fl (decimal_above (3 - 1) 385) \<noteq> Finite 385"
    unfolding c1 hi1 by simp
  show "fl 385 = Finite 385"
    by (rule fl_is [where e = 8 and m = 6772991627100160]) simp_all
qed simp_all

lemma fl_200: "fl 200 = Finite 200"
  by (rule fl_is [where e = 7 and m = 7036874417766400]) simp_all

lemma fl_near_20: "fl (90071992547409925 / 4503599627370496) = Finite 20"
  by (rule fl_is [where e = 4 and m = 5629499534213120]) simp_all

lemma fl_220: "fl 220 = Finite 220"
  by (rule fl_is [where e = 7 and m = 7740561859543040]) simp_all

lemma shortest_200: "shortest_decimal 200 = 200"
proof (rule shortest_decimal_is [where k = 1])
  have e: "exponent 10 200 = 2"
    by (rule exponent_eqI) simp_all
  have c: "decimal_below 1 200 = 200" "decimal_above 1 200 = 300"
    by (simp_all add: decimal_below_def decimal_above_def unit_at_def e floor_rat_numeral)
  have lo: "fl 200 = Finite 200"
    by (rule fl_is [where e = 7 and m = 7036874417766400]) simp_all
  have hi: "fl 300 = Finite 300"
    by (rule fl_is [where e = 8 and m = 5277655813324800]) simp_all
  show "digits 1 200 = Some 200"
    unfolding digits_def c lo hi by simp
  show "fl 200 = Finite 200"
    by (rule fl_is [where e = 7 and m = 7036874417766400]) simp_all
qed simp_all

lemma shortest_20: "shortest_decimal 20 = 20"
proof (rule shortest_decimal_is [where k = 1])
  have e: "exponent 10 20 = 1"
    by (rule exponent_eqI) simp_all
  have c: "decimal_below 1 20 = 20" "decimal_above 1 20 = 30"
    by (simp_all add: decimal_below_def decimal_above_def unit_at_def e floor_rat_numeral)
  have lo: "fl 20 = Finite 20"
    by (rule fl_is [where e = 4 and m = 5629499534213120]) simp_all
  have hi: "fl 30 = Finite 30"
    by (rule fl_is [where e = 4 and m = 8444249301319680]) simp_all
  show "digits 1 20 = Some 20"
    unfolding digits_def c lo hi by simp
  show "fl 20 = Finite 20"
    by (rule fl_is [where e = 4 and m = 5629499534213120]) simp_all
qed simp_all

lemma shortest_220: "shortest_decimal 220 = 220"
proof (rule shortest_decimal_is [where k = 2])
  have e: "exponent 10 220 = 2"
    by (rule exponent_eqI) simp_all
  have c: "decimal_below 2 220 = 220" "decimal_above 2 220 = 230"
    by (simp_all add: decimal_below_def decimal_above_def unit_at_def e floor_rat_numeral)
  have lo: "fl 220 = Finite 220"
    by (rule fl_is [where e = 7 and m = 7740561859543040]) simp_all
  have hi: "fl 230 = Finite 230"
    by (rule fl_is [where e = 7 and m = 8092405580431360]) simp_all
  show "digits 2 220 = Some 220"
    unfolding digits_def c lo hi by simp
  have c1: "decimal_below (2 - 1) 220 = 200" "decimal_above (2 - 1) 220 = 300"
    by (simp_all add: decimal_below_def decimal_above_def unit_at_def e floor_rat_numeral)
  have lo1: "fl 200 = Finite 200"
    by (rule fl_is [where e = 7 and m = 7036874417766400]) simp_all
  have hi1: "fl 300 = Finite 300"
    by (rule fl_is [where e = 8 and m = 5277655813324800]) simp_all
  show "fl (decimal_below (2 - 1) 220) \<noteq> Finite 220"
    unfolding c1 lo1 by simp
  show "fl (decimal_above (2 - 1) 220) \<noteq> Finite 220"
    unfolding c1 hi1 by simp
  show "fl 220 = Finite 220"
    by (rule fl_is [where e = 7 and m = 7740561859543040]) simp_all
qed simp_all

lemmas plain_doubles = fl_1 fl_250 fl_10 fl_0_1 fl_near_25 fl_275 fl_350 fl_near_35 fl_385
  fl_200 fl_near_20 fl_220 shortest_250 shortest_10 shortest_25 shortest_275 shortest_1
  shortest_350 shortest_35 shortest_385 shortest_200 shortest_20 shortest_220

subsection \<open>The creations\<close>

lemma busy_number: "next_invoice_number 2026 busy_year_store = ''2026-10000''"
  by (simp add: number_defs busy_year_store_def example_store_def example_invoice_def)

lemma busy_number_again: "next_invoice_number 2026 after_ten_thousandth = ''2026-10000''"
  by (simp add: number_defs after_ten_thousandth_def busy_year_store_def example_store_def
      example_invoice_def ten_thousandth_def)

lemma busy_transaction:
  "invoice_transaction 2026 busy_year_store plain_request = Some (after_ten_thousandth, ten_thousandth)"
  unfolding invoice_transaction_def busy_number
  by (simp add: insert_defs plain_doubles plain_request_def busy_year_store_def example_store_def
      example_invoice_def ten_thousandth_def after_ten_thousandth_def)

lemma busy_transaction_again:
  "invoice_transaction 2026 after_ten_thousandth plain_request = None"
  unfolding invoice_transaction_def busy_number_again
  by (simp add: insert_defs plain_doubles plain_request_def busy_year_store_def example_store_def
      example_invoice_def ten_thousandth_def after_ten_thousandth_def)

lemma busy_validate:
  "validate_invoice_request busy_year_store plain_request = None"
  "validate_invoice_request after_ten_thousandth plain_request = None"
  by (simp_all add: validate_invoice_request_def plain_request_def busy_year_store_def
      example_store_def after_ten_thousandth_def)

lemma busy_find: "find_invoice after_ten_thousandth (inv_id ten_thousandth) = Some ten_thousandth"
  by (simp add: find_invoice_def after_ten_thousandth_def ten_thousandth_def example_invoice_def)

text \<open>
  Claim C6 at a store whose greatest number of 2026 is \<^verbatim>\<open>2026-9999\<close>: the next
  creation succeeds and is numbered \<^verbatim>\<open>2026-10000\<close>, which is not of the form
  \<^verbatim>\<open>^[0-9]{4}-[0-9]{4}$\<close>; and the creation after that is rolled back, since the
  greatest number in string order is still \<^verbatim>\<open>2026-9999\<close> and \<^verbatim>\<open>2026-10000\<close> is
  taken.
\<close>

theorem ten_thousandth_invoice_number:
  "post_invoice 2026 busy_year_store plain_request =
     (after_ten_thousandth, Ok 201 ten_thousandth, [InvoiceCreated ten_thousandth]) \<and>
   invoice_number ten_thousandth = ''2026-10000'' \<and>
   \<not> number_format (invoice_number ten_thousandth) \<and>
   post_invoice 2026 after_ten_thousandth plain_request =
     (after_ten_thousandth, Fail 500 ''Failed to create invoice'' NoDetail, [])"
  by (simp add: post_invoice_def invoice_commit_def busy_validate busy_transaction
      busy_transaction_again busy_find number_format_def)
     (simp add: ten_thousandth_def)


section \<open>Two requests for overlapping entries\<close>

lemmas hours_defs =
  hours_store_def after_first_def after_both_def first_request_def second_request_def
  first_invoice_def second_invoice_def free_entry_def locked_entry_def billed_def

lemma hours_validate:
  "validate_invoice_request hours_store first_request = None"
  "validate_invoice_request hours_store second_request = None"
  "validate_invoice_request after_first second_request =
     Some (Fail 400 ''Some time entries are already invoiced'' (InvoicedIds [2]))"
  by (simp_all add: validate_invoice_request_def hours_defs)

lemma hours_numbers:
  "next_invoice_number 2026 hours_store = ''2026-0001''"
  "next_invoice_number 2026 after_first = ''2026-0002''"
  by (simp_all add: number_defs hours_defs)

lemma hours_first:
  "invoice_commit 2026 hours_store first_request =
     (after_first, Ok 201 first_invoice, [InvoiceCreated first_invoice])"
  unfolding invoice_commit_def invoice_transaction_def hours_numbers
  by (simp add: insert_defs plain_doubles hours_defs)

lemma hours_second:
  "invoice_commit 2026 after_first second_request =
     (after_both, Ok 201 second_invoice, [InvoiceCreated second_invoice])"
  unfolding invoice_commit_def invoice_transaction_def hours_numbers
  by (simp add: insert_defs plain_doubles hours_defs)

text \<open>
  Claim C1 at two requests of client 1, for the entries 1, 2 and for the entries 2, 3,
  against a store where the three entries are unbilled. When both requests run their
  queries before either runs its transaction, both are answered 201: two invoices are
  stored, the 150 of entry 2 is in the subtotal of each, and entry 2 ends up pointing
  at the second invoice. When the first request finishes before the second starts,
  the second is refused with status 400.
\<close>

theorem overlapping_requests_both_succeed:
  "run_schedule 2026 hours_store
     [(first_request, Validating), (second_request, Validating)] [0, 1, 0, 1] =
     (after_both,
      [(first_request, Answered (Ok 201 first_invoice)),
       (second_request, Answered (Ok 201 second_invoice))]) \<and>
   invoices after_both = [first_invoice, second_invoice] \<and>
   map (\<lambda>te. (te_id te, te_invoiced te, te_invoice_id te)) (time_entries after_both) =
     [(1, True, Some 1), (2, True, Some 2), (3, True, Some 2)] \<and>
   entries_sum hours_store [2] = 150 \<and>
   subtotal first_invoice = entries_sum hours_store [1, 2] \<and>
   subtotal second_invoice = entries_sum hours_store [2, 3] \<and>
   run_schedule 2026 hours_store
     [(first_request, Validating), (second_request, Validating)] [0, 0, 1, 1] =
     (after_first,
      [(first_request, Answered (Ok 201 first_invoice)),
       (second_request,
        Answered (Fail 400 ''Some time entries are already invoiced'' (InvoicedIds [2])))])"
  by (simp add: hours_validate hours_first hours_second)
     (simp add: hours_defs entries_sum_def effective_rate_def)

text \<open>A request scheduled alone is the handler run from start to end.\<close>

lemma schedule_of_one_request:
  "run_schedule year s [(rq, Validating)] [0, 0] =
     (fst (post_invoice year s rq), [(rq, Answered (fst (snd (post_invoice year s rq))))])"
  by (simp add: post_invoice_def split: option.splits prod.splits)

section \<open>Totals as the store keeps them\<close>

subsection \<open>What the two line item handlers store\<close>





subsection \<open>A tenth of an hour at 123.44\<close>

lemma fl_12_344: "fl (1543 / 125) = Finite (6949054225032675 / 562949953421312)"
  by (rule fl_is [where e = 3 and m = 6949054225032675]) simp_all

lemma fl_near_1_2344: "fl (25036606414747622179386789771975 / 20282409603651670423947251286016) = Finite (1389810845006535 / 1125899906842624)"
  by (rule fl_is [where e = 0 and m = 5559243380026140]) simp_all

lemma fl_near_13_578399999999998: "fl (15287919295071885 / 1125899906842624) = Finite (3821979823767971 / 281474976710656)"
  by (rule fl_tie [where e = 3 and n = 7643959647535942]) simp_all

lemma shortest_12_344: "shortest_decimal (6949054225032675 / 562949953421312) = 1543 / 125"
proof (rule shortest_decimal_is [where k = 5])
  have e: "exponent 10 (6949054225032675 / 562949953421312) = 1"
    by (rule exponent_eqI) simp_all
  have c: "decimal_below 5 (6949054225032675 / 562949953421312) = 12343 / 1000" "decimal_above 5 (6949054225032675 / 562949953421312) = 1543 / 125"
    by (simp_all add: decimal_below_def decimal_above_def unit_at_def e floor_rat_numeral)
  have lo: "fl (12343 / 1000) = Finite (3474245637539627 / 281474976710656)"
    by (rule fl_is [where e = 3 and m = 6948491275079254]) simp_all
  have hi: "fl (1543 / 125) = Finite (6949054225032675 / 562949953421312)"
    by (rule fl_is [where e = 3 and m = 6949054225032675]) simp_all
  show "digits 5 (6949054225032675 / 562949953421312) = Some (1543 / 125)"
    unfolding digits_def c lo hi by simp
  have c1: "decimal_below (5 - 1) (6949054225032675 / 562949953421312) = 617 / 50" "decimal_above (5 - 1) (6949054225032675 / 562949953421312) = 247 / 20"
    by (simp_all add: decimal_below_def decimal_above_def unit_at_def e floor_rat_numeral)
  have lo1: "fl (617 / 50) = Finite (3473401212609495 / 281474976710656)"
    by (rule fl_is [where e = 3 and m = 6946802425218990]) simp_all
  have hi1: "fl (247 / 20) = Finite (6952431924753203 / 562949953421312)"
    by (rule fl_is [where e = 3 and m = 6952431924753203]) simp_all
  show "fl (decimal_below (5 - 1) (6949054225032675 / 562949953421312)) \<noteq> Finite (6949054225032675 / 562949953421312)"
    unfolding c1 lo1 by simp
  show "fl (decimal_above (5 - 1) (6949054225032675 / 562949953421312)) \<noteq> Finite (6949054225032675 / 562949953421312)"
    unfolding c1 hi1 by simp
  show "fl (6949054225032675 / 562949953421312) = Finite (6949054225032675 / 562949953421312)"
    by (rule fl_is [where e = 3 and m = 6949054225032675]) simp_all
qed simp_all

lemma shortest_1_2344: "shortest_decimal (1389810845006535 / 1125899906842624) = 1543 / 1250"
proof (rule shortest_decimal_is [where k = 5])
  have e: "exponent 10 (1389810845006535 / 1125899906842624) = 0"
    by (rule exponent_eqI) simp_all
  have c: "decimal_below 5 (1389810845006535 / 1125899906842624) = 12343 / 10000" "decimal_above 5 (1389810845006535 / 1125899906842624) = 1543 / 1250"
    by (simp_all add: decimal_below_def decimal_above_def unit_at_def e floor_rat_numeral)
  have lo: "fl (12343 / 10000) = Finite (5558793020063403 / 4503599627370496)"
    by (rule fl_is [where e = 0 and m = 5558793020063403]) simp_all
  have hi: "fl (1543 / 1250) = Finite (1389810845006535 / 1125899906842624)"
    by (rule fl_is [where e = 0 and m = 5559243380026140]) simp_all
  show "digits 5 (1389810845006535 / 1125899906842624) = Some (1543 / 1250)"
    unfolding digits_def c lo hi by simp
  have c1: "decimal_below (5 - 1) (1389810845006535 / 1125899906842624) = 617 / 500" "decimal_above (5 - 1) (1389810845006535 / 1125899906842624) = 247 / 200"
    by (simp_all add: decimal_below_def decimal_above_def unit_at_def e floor_rat_numeral)
  have lo1: "fl (617 / 500) = Finite (694680242521899 / 562949953421312)"
    by (rule fl_is [where e = 0 and m = 5557441940175192]) simp_all
  have hi1: "fl (247 / 200) = Finite (5561945539802563 / 4503599627370496)"
    by (rule fl_is [where e = 0 and m = 5561945539802563]) simp_all
  show "fl (decimal_below (5 - 1) (1389810845006535 / 1125899906842624)) \<noteq> Finite (1389810845006535 / 1125899906842624)"
    unfolding c1 lo1 by simp
  show "fl (decimal_above (5 - 1) (1389810845006535 / 1125899906842624)) \<noteq> Finite (1389810845006535 / 1125899906842624)"
    unfolding c1 hi1 by simp
  show "fl (1389810845006535 / 1125899906842624) = Finite (1389810845006535 / 1125899906842624)"
    by (rule fl_is [where e = 0 and m = 5559243380026140]) simp_all
qed simp_all

lemma shortest_13_578399999999998: "shortest_decimal (3821979823767971 / 281474976710656) = 6789199999999999 / 500000000000000"
proof (rule shortest_decimal_is [where k = 17])
  have e: "exponent 10 (3821979823767971 / 281474976710656) = 1"
    by (rule exponent_eqI) simp_all
  have c: "decimal_below 17 (3821979823767971 / 281474976710656) = 6789199999999999 / 500000000000000" "decimal_above 17 (3821979823767971 / 281474976710656) = 13578399999999999 / 1000000000000000"
    by (simp_all add: decimal_below_def decimal_above_def unit_at_def e floor_rat_numeral)
  have lo: "fl (6789199999999999 / 500000000000000) = Finite (3821979823767971 / 281474976710656)"
    by (rule fl_is [where e = 3 and m = 7643959647535942]) simp_all
  have hi: "fl (13578399999999999 / 1000000000000000) = Finite (3821979823767971 / 281474976710656)"
    by (rule fl_is [where e = 3 and m = 7643959647535942]) simp_all
  show "digits 17 (3821979823767971 / 281474976710656) = Some (6789199999999999 / 500000000000000)"
    unfolding digits_def c lo hi by simp
  have c1: "decimal_below (17 - 1) (3821979823767971 / 281474976710656) = 1357839999999999 / 100000000000000" "decimal_above (17 - 1) (3821979823767971 / 281474976710656) = 16973 / 1250"
    by (simp_all add: decimal_below_def decimal_above_def unit_at_def e floor_rat_numeral)
  have lo1: "fl (1357839999999999 / 100000000000000) = Finite (7643959647535937 / 562949953421312)"
    by (rule fl_is [where e = 3 and m = 7643959647535937]) simp_all
  have hi1: "fl (16973 / 1250) = Finite (7643959647535943 / 562949953421312)"
    by (rule fl_is [where e = 3 and m = 7643959647535943]) simp_all
  show "fl (decimal_below (17 - 1) (3821979823767971 / 281474976710656)) \<noteq> Finite (3821979823767971 / 281474976710656)"
    unfolding c1 lo1 by simp
  show "fl (decimal_above (17 - 1) (3821979823767971 / 281474976710656)) \<noteq> Finite (3821979823767971 / 281474976710656)"
    unfolding c1 hi1 by simp
  show "fl (3821979823767971 / 281474976710656) = Finite (3821979823767971 / 281474976710656)"
    by (rule fl_is [where e = 3 and m = 7643959647535942]) simp_all
qed simp_all

lemma fl_123_44: "fl (3086 / 25) = Finite (2171579445322711 / 17592186044416)"
  by (rule fl_is [where e = 6 and m = 8686317781290844]) simp_all

lemma fl_near_12_344000000000001: "fl (7823939504608632156238353172267 / 633825300114114700748351602688) = Finite (1737263556258169 / 140737488355328)"
  by (rule fl_is [where e = 3 and m = 6949054225032676]) simp_all

lemma shortest_0_1: "shortest_decimal (3602879701896397 / 36028797018963968) = 1 / 10"
proof (rule shortest_decimal_is [where k = 1])
  have e: "exponent 10 (3602879701896397 / 36028797018963968) = - 1"
    by (rule exponent_eqI) simp_all
  have c: "decimal_below 1 (3602879701896397 / 36028797018963968) = 1 / 10" "decimal_above 1 (3602879701896397 / 36028797018963968) = 1 / 5"
    by (simp_all add: decimal_below_def decimal_above_def unit_at_def e floor_rat_numeral)
  have lo: "fl (1 / 10) = Finite (3602879701896397 / 36028797018963968)"
    by (rule fl_is [where e = "- 4" and m = 7205759403792794]) simp_all
  have hi: "fl (1 / 5) = Finite (3602879701896397 / 18014398509481984)"
    by (rule fl_is [where e = "- 3" and m = 7205759403792794]) simp_all
  show "digits 1 (3602879701896397 / 36028797018963968) = Some (1 / 10)"
    unfolding digits_def c lo hi by simp
  show "fl (3602879701896397 / 36028797018963968) = Finite (3602879701896397 / 36028797018963968)"
    by (rule fl_is [where e = "- 4" and m = 7205759403792794]) simp_all
qed simp_all

lemma shortest_123_44: "shortest_decimal (2171579445322711 / 17592186044416) = 3086 / 25"
proof (rule shortest_decimal_is [where k = 5])
  have e: "exponent 10 (2171579445322711 / 17592186044416) = 2"
    by (rule exponent_eqI) simp_all
  have c: "decimal_below 5 (2171579445322711 / 17592186044416) = 12343 / 100" "decimal_above 5 (2171579445322711 / 17592186044416) = 3086 / 25"
    by (simp_all add: decimal_below_def decimal_above_def unit_at_def e floor_rat_numeral)
  have lo: "fl (12343 / 100) = Finite (2171403523462267 / 17592186044416)"
    by (rule fl_is [where e = 6 and m = 8685614093849068]) simp_all
  have hi: "fl (3086 / 25) = Finite (2171579445322711 / 17592186044416)"
    by (rule fl_is [where e = 6 and m = 8686317781290844]) simp_all
  show "digits 5 (2171579445322711 / 17592186044416) = Some (3086 / 25)"
    unfolding digits_def c lo hi by simp
  have c1: "decimal_below (5 - 1) (2171579445322711 / 17592186044416) = 617 / 5" "decimal_above (5 - 1) (2171579445322711 / 17592186044416) = 247 / 2"
    by (simp_all add: decimal_below_def decimal_above_def unit_at_def e floor_rat_numeral)
  have lo1: "fl (617 / 5) = Finite (4341751515761869 / 35184372088832)"
    by (rule fl_is [where e = 6 and m = 8683503031523738]) simp_all
  have hi1: "fl (247 / 2) = Finite (247 / 2)"
    by (rule fl_is [where e = 6 and m = 8690539905941504]) simp_all
  show "fl (decimal_below (5 - 1) (2171579445322711 / 17592186044416)) \<noteq> Finite (2171579445322711 / 17592186044416)"
    unfolding c1 lo1 by simp
  show "fl (decimal_above (5 - 1) (2171579445322711 / 17592186044416)) \<noteq> Finite (2171579445322711 / 17592186044416)"
    unfolding c1 hi1 by simp
  show "fl (2171579445322711 / 17592186044416) = Finite (2171579445322711 / 17592186044416)"
    by (rule fl_is [where e = 6 and m = 8686317781290844]) simp_all
qed simp_all

lemma shortest_12_344000000000001: "shortest_decimal (1737263556258169 / 140737488355328) = 12344000000000001 / 1000000000000000"
proof (rule shortest_decimal_is [where k = 17])
  have e: "exponent 10 (1737263556258169 / 140737488355328) = 1"
    by (rule exponent_eqI) simp_all
  have c: "decimal_below 17 (1737263556258169 / 140737488355328) = 12344000000000001 / 1000000000000000" "decimal_above 17 (1737263556258169 / 140737488355328) = 6172000000000001 / 500000000000000"
    by (simp_all add: decimal_below_def decimal_above_def unit_at_def e floor_rat_numeral)
  have lo: "fl (12344000000000001 / 1000000000000000) = Finite (1737263556258169 / 140737488355328)"
    by (rule fl_is [where e = 3 and m = 6949054225032676]) simp_all
  have hi: "fl (6172000000000001 / 500000000000000) = Finite (1737263556258169 / 140737488355328)"
    by (rule fl_is [where e = 3 and m = 6949054225032676]) simp_all
  show "digits 17 (1737263556258169 / 140737488355328) = Some (12344000000000001 / 1000000000000000)"
    unfolding digits_def c lo hi by simp
  have c1: "decimal_below (17 - 1) (1737263556258169 / 140737488355328) = 1543 / 125" "decimal_above (17 - 1) (1737263556258169 / 140737488355328) = 1234400000000001 / 100000000000000"
    by (simp_all add: decimal_below_def decimal_above_def unit_at_def e floor_rat_numeral)
  have lo1: "fl (1543 / 125) = Finite (6949054225032675 / 562949953421312)"
    by (rule fl_is [where e = 3 and m = 6949054225032675]) simp_all
  have hi1: "fl (1234400000000001 / 100000000000000) = Finite (6949054225032681 / 562949953421312)"
    by (rule fl_is [where e = 3 and m = 6949054225032681]) simp_all
  show "fl (decimal_below (17 - 1) (1737263556258169 / 140737488355328)) \<noteq> Finite (1737263556258169 / 140737488355328)"
    unfolding c1 lo1 by simp
  show "fl (decimal_above (17 - 1) (1737263556258169 / 140737488355328)) \<noteq> Finite (1737263556258169 / 140737488355328)"
    unfolding c1 hi1 by simp
  show "fl (1737263556258169 / 140737488355328) = Finite (1737263556258169 / 140737488355328)"
    by (rule fl_is [where e = 3 and m = 6949054225032676]) simp_all
qed simp_all

lemma fl_12_34: "fl (617 / 50) = Finite (3473401212609495 / 281474976710656)"
  by (rule fl_is [where e = 3 and m = 6946802425218990]) simp_all

lemma fl_near_24_684: "fl (6947928325125833 / 281474976710656) = Finite (6947928325125833 / 281474976710656)"
  by (rule fl_is [where e = 4 and m = 6947928325125833]) simp_all

lemma fl_near_2_4684000000000004: "fl (25032549932826894093273754323701 / 10141204801825835211973625643008) = Finite (5558342660100667 / 2251799813685248)"
  by (rule fl_is [where e = 1 and m = 5558342660100667]) simp_all

lemma fl_near_27_1524: "fl (61141769261107331 / 2251799813685248) = Finite (477670072352401 / 17592186044416)"
  by (rule fl_is [where e = 4 and m = 7642721157638416]) simp_all

lemma shortest_24_684: "shortest_decimal (6947928325125833 / 281474976710656) = 6171 / 250"
proof (rule shortest_decimal_is [where k = 5])
  have e: "exponent 10 (6947928325125833 / 281474976710656) = 1"
    by (rule exponent_eqI) simp_all
  have c: "decimal_below 5 (6947928325125833 / 281474976710656) = 6171 / 250" "decimal_above 5 (6947928325125833 / 281474976710656) = 4937 / 200"
    by (simp_all add: decimal_below_def decimal_above_def unit_at_def e floor_rat_numeral)
  have lo: "fl (6171 / 250) = Finite (6947928325125833 / 281474976710656)"
    by (rule fl_is [where e = 4 and m = 6947928325125833]) simp_all
  have hi: "fl (4937 / 200) = Finite (6948209800102543 / 281474976710656)"
    by (rule fl_is [where e = 4 and m = 6948209800102543]) simp_all
  show "digits 5 (6947928325125833 / 281474976710656) = Some (6171 / 250)"
    unfolding digits_def c lo hi by simp
  have c1: "decimal_below (5 - 1) (6947928325125833 / 281474976710656) = 617 / 25" "decimal_above (5 - 1) (6947928325125833 / 281474976710656) = 2469 / 100"
    by (simp_all add: decimal_below_def decimal_above_def unit_at_def e floor_rat_numeral)
  have lo1: "fl (617 / 25) = Finite (3473401212609495 / 140737488355328)"
    by (rule fl_is [where e = 4 and m = 6946802425218990]) simp_all
  have hi1: "fl (2469 / 100) = Finite (6949617174986097 / 281474976710656)"
    by (rule fl_is [where e = 4 and m = 6949617174986097]) simp_all
  show "fl (decimal_below (5 - 1) (6947928325125833 / 281474976710656)) \<noteq> Finite (6947928325125833 / 281474976710656)"
    unfolding c1 lo1 by simp
  show "fl (decimal_above (5 - 1) (6947928325125833 / 281474976710656)) \<noteq> Finite (6947928325125833 / 281474976710656)"
    unfolding c1 hi1 by simp
  show "fl (6947928325125833 / 281474976710656) = Finite (6947928325125833 / 281474976710656)"
    by (rule fl_is [where e = 4 and m = 6947928325125833]) simp_all
qed simp_all

lemma shortest_2_4684000000000004: "shortest_decimal (5558342660100667 / 2251799813685248) = 6171000000000001 / 2500000000000000"
proof (rule shortest_decimal_is [where k = 17])
  have e: "exponent 10 (5558342660100667 / 2251799813685248) = 0"
    by (rule exponent_eqI) simp_all
  have c: "decimal_below 17 (5558342660100667 / 2251799813685248) = 24684000000000003 / 10000000000000000" "decimal_above 17 (5558342660100667 / 2251799813685248) = 6171000000000001 / 2500000000000000"
    by (simp_all add: decimal_below_def decimal_above_def unit_at_def e floor_rat_numeral)
  have lo: "fl (24684000000000003 / 10000000000000000) = Finite (5558342660100667 / 2251799813685248)"
    by (rule fl_is [where e = 1 and m = 5558342660100667]) simp_all
  have hi: "fl (6171000000000001 / 2500000000000000) = Finite (5558342660100667 / 2251799813685248)"
    by (rule fl_is [where e = 1 and m = 5558342660100667]) simp_all
  show "digits 17 (5558342660100667 / 2251799813685248) = Some (6171000000000001 / 2500000000000000)"
    unfolding digits_def c lo hi by simp
  have c1: "decimal_below (17 - 1) (5558342660100667 / 2251799813685248) = 6171 / 2500" "decimal_above (17 - 1) (5558342660100667 / 2251799813685248) = 2468400000000001 / 1000000000000000"
    by (simp_all add: decimal_below_def decimal_above_def unit_at_def e floor_rat_numeral)
  have lo1: "fl (6171 / 2500) = Finite (2779171330050333 / 1125899906842624)"
    by (rule fl_is [where e = 1 and m = 5558342660100666]) simp_all
  have hi1: "fl (2468400000000001 / 1000000000000000) = Finite (1389585665025167 / 562949953421312)"
    by (rule fl_is [where e = 1 and m = 5558342660100668]) simp_all
  show "fl (decimal_below (17 - 1) (5558342660100667 / 2251799813685248)) \<noteq> Finite (5558342660100667 / 2251799813685248)"
    unfolding c1 lo1 by simp
  show "fl (decimal_above (17 - 1) (5558342660100667 / 2251799813685248)) \<noteq> Finite (5558342660100667 / 2251799813685248)"
    unfolding c1 hi1 by simp
  show "fl (5558342660100667 / 2251799813685248) = Finite (5558342660100667 / 2251799813685248)"
    by (rule fl_is [where e = 1 and m = 5558342660100667]) simp_all
qed simp_all

lemma shortest_27_1524: "shortest_decimal (477670072352401 / 17592186044416) = 67881 / 2500"
proof (rule shortest_decimal_is [where k = 6])
  have e: "exponent 10 (477670072352401 / 17592186044416) = 1"
    by (rule exponent_eqI) simp_all
  have c: "decimal_below 6 (477670072352401 / 17592186044416) = 67881 / 2500" "decimal_above 6 (477670072352401 / 17592186044416) = 10861 / 400"
    by (simp_all add: decimal_below_def decimal_above_def unit_at_def e floor_rat_numeral)
  have lo: "fl (67881 / 2500) = Finite (477670072352401 / 17592186044416)"
    by (rule fl_is [where e = 4 and m = 7642721157638416]) simp_all
  have hi: "fl (10861 / 400) = Finite (7642749305136087 / 281474976710656)"
    by (rule fl_is [where e = 4 and m = 7642749305136087]) simp_all
  show "digits 6 (477670072352401 / 17592186044416) = Some (67881 / 2500)"
    unfolding digits_def c lo hi by simp
  have c1: "decimal_below (6 - 1) (477670072352401 / 17592186044416) = 3394 / 125" "decimal_above (6 - 1) (477670072352401 / 17592186044416) = 27153 / 1000"
    by (simp_all add: decimal_below_def decimal_above_def unit_at_def e floor_rat_numeral)
  have lo1: "fl (3394 / 125) = Finite (1910652141911933 / 70368744177664)"
    by (rule fl_is [where e = 4 and m = 7642608567647732]) simp_all
  have hi1: "fl (27153 / 1000) = Finite (3821445021312221 / 140737488355328)"
    by (rule fl_is [where e = 4 and m = 7642890042624442]) simp_all
  show "fl (decimal_below (6 - 1) (477670072352401 / 17592186044416)) \<noteq> Finite (477670072352401 / 17592186044416)"
    unfolding c1 lo1 by simp
  show "fl (decimal_above (6 - 1) (477670072352401 / 17592186044416)) \<noteq> Finite (477670072352401 / 17592186044416)"
    unfolding c1 hi1 by simp
  show "fl (477670072352401 / 17592186044416) = Finite (477670072352401 / 17592186044416)"
    by (rule fl_is [where e = 4 and m = 7642721157638416]) simp_all
qed simp_all

lemmas tenth_doubles = fl_12_344 fl_near_1_2344 fl_near_13_578399999999998 fl_123_44
  fl_near_12_344000000000001 fl_12_34 fl_near_24_684 fl_near_2_4684000000000004 fl_near_27_1524
  shortest_12_344 shortest_1_2344 shortest_13_578399999999998 shortest_0_1 shortest_123_44
  shortest_12_344000000000001 shortest_24_684 shortest_2_4684000000000004 shortest_27_1524

lemmas tenth_defs =
  tenth_hour_store_def tenth_hour_request_def tenth_hour_invoice_def tenth_hour_billed_def
  tenth_hour_item_def travel_row_def tenth_hour_with_item_def
  first_request_def free_entry_def locked_entry_def billed_def

lemma tenth_hour_number: "next_invoice_number 2026 tenth_hour_store = ''2026-0001''"
  by (simp add: number_defs tenth_defs)

lemma tenth_hour_created:
  "post_invoice 2026 tenth_hour_store tenth_hour_request =
     (tenth_hour_billed, Ok 201 tenth_hour_invoice, [InvoiceCreated tenth_hour_invoice])"
proof -
  have "validate_invoice_request tenth_hour_store tenth_hour_request = None"
    by (simp add: validate_invoice_request_def tenth_defs)
  moreover have "invoice_commit 2026 tenth_hour_store tenth_hour_request =
     (tenth_hour_billed, Ok 201 tenth_hour_invoice, [InvoiceCreated tenth_hour_invoice])"
    unfolding invoice_commit_def invoice_transaction_def tenth_hour_number
    by (simp add: insert_defs plain_doubles tenth_doubles tenth_defs)
  ultimately show ?thesis by (simp add: post_invoice_def)
qed


text \<open>
  Claim C2 at one entry of a tenth of an hour at 123.44 an hour, invoiced with a tax
  rate of 10. The handler reads the sum 12.344, computes the tax amount 1.2344 and the
  total 13.578399999999998 in doubles, and hands the three to columns that keep two
  decimals each: 12.34, 1.23 and 13.58. The stored total is a cent more than the stored
  subtotal plus the stored tax amount.
\<close>

theorem stored_total_off_by_a_cent:
  "post_invoice 2026 tenth_hour_store tenth_hour_request =
     (tenth_hour_billed, Ok 201 tenth_hour_invoice, [InvoiceCreated tenth_hour_invoice]) \<and>
   subtotal tenth_hour_invoice = 1234 / 100 \<and>
   tax_rate tenth_hour_invoice = 10 \<and>
   tax_amount tenth_hour_invoice = 123 / 100 \<and>
   total tenth_hour_invoice = 1358 / 100 \<and>
   total tenth_hour_invoice \<noteq> subtotal tenth_hour_invoice + tax_amount tenth_hour_invoice"
  by (simp add: tenth_hour_created) (simp add: tenth_hour_invoice_def)

subsection \<open>Line item mutations adjust the stored subtotal\<close>



subsection \<open>An item of 1.5 at 0.37\<close>


























end
